theory Spec2Isabelle
  imports Complex_Main "HOL-Library.AList" "HOL-Library.Sublist" "HOL-Library.Multiset"
begin

section \<open>The AIcrowd evaluator of ImageCLEF Aware (dataset/evaluate.py)\<close>

text \<open>
  The evaluator reads a ground-truth file once, then validates a submission file against
  it and scores it by the mean Pearson correlation over the four situation codes.

  Scope of the model.
  \<^item> A Python \<open>dict\<close> is an association list in insertion order; a list that stands for
    a dict has distinct keys, which the theorems assume where they need it.
  \<^item> The parsed submission is a dict of dicts: a top level or a record that is not a JSON
    object is outside the model. The values of a record are arbitrary JSON values.
  \<^item> The ground truth is a dict of dicts of numbers, as its fixed schema says: the table
    of the float values of its numbers.
  \<^item> A Python float is a real number or the one not-a-number value; infinities are not
    modelled. Every float operation of the source rounds its exact result: the functions
    take that rounding as their first argument \<open>rnd\<close>, and the theorems hold for every
    rounding, hence for the one of the machine. An integer too large for a float makes
    \<open>float\<close> raise, which does not depend on the rounding.
  \<^item> Console output (\<open>print\<close>) is left out.
\<close>

subsection \<open>JSON values and Python exceptions\<close>

datatype jval =
    JInt int
  | JFloat real
  | JString string
  | JBool bool
  | JNull
  | JArray "jval list"
  | JObject "(string \<times> jval) list"

text \<open>\<open>type(v).__name__\<close> of a value that \<open>json.load\<close> produced.\<close>

fun type_name :: "jval \<Rightarrow> string" where
  "type_name (JInt i) = ''int''"
| "type_name (JFloat r) = ''float''"
| "type_name (JString s) = ''str''"
| "type_name (JBool b) = ''bool''"
| "type_name JNull = ''NoneType''"
| "type_name (JArray xs) = ''list''"
| "type_name (JObject kvs) = ''dict''"

text \<open>
  The exceptions the evaluator can end with. \<open>Exception_msg m\<close> is \<open>Exception(m)\<close>,
  \<open>Exception_args m n\<close> is \<open>Exception(m, n)\<close> (the count check passes two arguments).
\<close>

datatype py_exception =
    Exception_msg string
  | Exception_args string nat
  | KeyError string
  | IndexError
  | TypeError
  | ValueError
  | OverflowError

type_synonym scores_json = "(string \<times> jval) list"
type_synonym user_data = "(string \<times> scores_json) list"
type_synonym score_table = "(string \<times> (string \<times> real) list) list"

definition exc_bind :: "'e + 'a \<Rightarrow> ('a \<Rightarrow> 'e + 'b) \<Rightarrow> 'e + 'b" where
  "exc_bind m f = (case m of Inl e \<Rightarrow> Inl e | Inr x \<Rightarrow> f x)"

text \<open>\<open>d[k]\<close> on a dict.\<close>

definition py_getitem :: "(string \<times> 'a) list \<Rightarrow> string \<Rightarrow> py_exception + 'a" where
  "py_getitem d k = (case map_of d k of None \<Rightarrow> Inl (KeyError k) | Some v \<Rightarrow> Inr v)"

text \<open>
  \<open>float\<close> of an integer raises OverflowError when the integer rounds to no finite
  double: the largest double is \<open>2^1024 - 2^971\<close>, and from \<open>2^1024 - 2^970\<close> on an
  integer rounds beyond it.
\<close>

definition float_overflow :: "int \<Rightarrow> bool" where
  "float_overflow i = (2 ^ 1024 - 2 ^ 970 \<le> \<bar>i\<bar>)"

text \<open>
  \<open>float(v)\<close>: an integer is rounded to a float or is too large for one, a float is
  returned as it is. The evaluator applies \<open>float\<close> only after \<open>validate_score\<close> has
  accepted the value, so only the first two equations are ever used; parsing a string is
  not modelled and stands as \<open>ValueError\<close>.
\<close>

fun py_float :: "(real \<Rightarrow> real) \<Rightarrow> jval \<Rightarrow> py_exception + real" where
  "py_float rnd (JInt i) = (if float_overflow i then Inl OverflowError else Inr (rnd (of_int i)))"
| "py_float rnd (JFloat r) = Inr r"
| "py_float rnd (JBool b) = Inr (if b then 1 else 0)"
| "py_float rnd (JString s) = Inl ValueError"
| "py_float rnd v = Inl TypeError"

subsection \<open>Rendering of messages\<close>

definition digit_char :: "nat \<Rightarrow> char" where
  "digit_char d = ''0123456789'' ! d"

text \<open>\<open>str(n)\<close> of a non-negative integer.\<close>

fun str_nat :: "nat \<Rightarrow> string" where
  "str_nat n = (if n < 10 then [digit_char n] else str_nat (n div 10) @ [digit_char (n mod 10)])"

declare str_nat.simps [simp del]

text \<open>
  \<open>repr\<close> of a string without quotes, backslashes or control characters, and \<open>str\<close> of
  a tuple of such strings: this is how the tuple of situation codes is rendered.
\<close>

definition repr_str :: "string \<Rightarrow> string" where
  "repr_str s = [CHR 0x27] @ s @ [CHR 0x27]"

fun join :: "string \<Rightarrow> string list \<Rightarrow> string" where
  "join sep [] = []"
| "join sep [x] = x"
| "join sep (x # y # ys) = x @ sep @ join sep (y # ys)"

definition str_tuple :: "string list \<Rightarrow> string" where
  "str_tuple xs =
     (case xs of [x] \<Rightarrow> ''('' @ repr_str x @ '',)''
      | _ \<Rightarrow> ''('' @ join '', '' (map repr_str xs) @ '')'')"

text \<open>
  \<open>template.format(*args)\<close> for a template whose only fields are \<open>{}\<close>: each field takes
  the next argument, already rendered; a field with no argument left raises IndexError
  (\<open>None\<close>); arguments left over are ignored.
\<close>

fun format_py :: "string \<Rightarrow> string list \<Rightarrow> string option" where
  "format_py [] args = Some []"
| "format_py [c] args = Some [c]"
| "format_py (c # d # cs) args =
     (if c = CHR ''{'' \<and> d = CHR ''}'' then
        (case args of
           [] \<Rightarrow> None
         | a # as \<Rightarrow> map_option (\<lambda>r. a @ r) (format_py cs as))
      else map_option (\<lambda>r. c # r) (format_py (d # cs) args))"

subsection \<open>Validation\<close>

definition REQUIRED_SITUATION_CODES :: "string list" where
  "REQUIRED_SITUATION_CODES = [''acc'', ''it'', ''bank'', ''wait'']"

text \<open>The message templates, as the source writes them (each a concatenation of literals).\<close>

definition unknown_profile_template :: string where
  "unknown_profile_template = ''User profile '{}' does not exist in gt set.''"

definition field_count_template :: string where
  "field_count_template =
     ''User profile '{}' must contain exactly 4 key/value pairs where '' @
     ''key=situation_code and value=score (Required situation codes: {}).''"

definition unknown_code_template :: string where
  "unknown_code_template =
     ''Situation code '{}' for user profile '{}' does not exist '' @
     ''(Possible situation codes: {}).''"

definition not_a_number_template :: string where
  "not_a_number_template =
     ''Score for situtation code '{}' for user profile '{}' must be '' @
     ''a number. In case it is a number make sure that you remove the quotes. ''"

definition count_mismatch_message :: string where
  "count_mismatch_message =
     ''Number of user profiles in submission file not equal to number of user_profiles '' @
     ''in gt set.''"

definition load_error_message :: string where
  "load_error_message =
     ''Error loading submission file. Please make sure your file is formatted as valid JSON. '' @
     ''Error: ''"

text \<open>\<open>raise_exception\<close> always raises; the model returns the exception it raises.\<close>

definition raise_exception :: "string \<Rightarrow> nat \<Rightarrow> string list \<Rightarrow> py_exception" where
  "raise_exception message rc args =
     (case format_py message args of
        None \<Rightarrow> IndexError
      | Some m \<Rightarrow>
          (case format_py '' Error occured at record nbr {}.'' [str_nat rc] of
             None \<Rightarrow> IndexError
           | Some s \<Rightarrow> Exception_msg (m @ s)))"

record score_validation_args =
  arg_user_profile :: string
  arg_record_count :: nat
  arg_situation_code :: string
  arg_score :: jval

definition validate_score :: "score_validation_args \<Rightarrow> py_exception + unit" where
  "validate_score a =
     (if type_name (arg_score a) \<noteq> ''int'' \<and> type_name (arg_score a) \<noteq> ''float'' then
        Inl (raise_exception not_a_number_template
          (arg_record_count a) [arg_situation_code a, arg_user_profile a])
      else Inr ())"

text \<open>The loop \<open>for score_name in scores\<close> over the keys of one record.\<close>

fun check_situation_codes :: "nat \<Rightarrow> string \<Rightarrow> string list \<Rightarrow> py_exception + unit" where
  "check_situation_codes rc up [] = Inr ()"
| "check_situation_codes rc up (score_name # rest) =
     (if score_name \<notin> set REQUIRED_SITUATION_CODES then
        Inl (raise_exception unknown_code_template
          rc [score_name, up, str_tuple REQUIRED_SITUATION_CODES])
      else check_situation_codes rc up rest)"

text \<open>One lookup \<open>scores[code]\<close> followed by \<open>validate_score\<close>.\<close>

definition validate_item :: "nat \<Rightarrow> string \<Rightarrow> scores_json \<Rightarrow> string \<Rightarrow> py_exception + unit" where
  "validate_item rc up scores code =
     exc_bind (py_getitem scores code) (\<lambda>v.
       validate_score \<lparr>arg_user_profile = up, arg_record_count = rc,
                       arg_situation_code = code, arg_score = v\<rparr>)"

definition float_item :: "(real \<Rightarrow> real) \<Rightarrow> scores_json \<Rightarrow> string \<Rightarrow> py_exception + real" where
  "float_item rnd scores code = exc_bind (py_getitem scores code) (py_float rnd)"

text \<open>
  The body of the loop \<open>for user_profile in user_data_items\<close>, with the record counter
  already incremented: it ends in an exception or in the updated \<open>predictions\<close>.
\<close>

definition process_record ::
  "(real \<Rightarrow> real) \<Rightarrow> score_table \<Rightarrow> score_table \<Rightarrow> nat \<Rightarrow> string \<Rightarrow> scores_json \<Rightarrow> py_exception + score_table" where
  "process_record rnd gt predictions rc up scores =
     (if up \<notin> set (map fst gt) then
        Inl (raise_exception unknown_profile_template rc [up])
      else if length scores \<noteq> 4 then
        Inl (raise_exception field_count_template
          rc [up, str_tuple REQUIRED_SITUATION_CODES])
      else
        exc_bind (check_situation_codes rc up (map fst scores)) (\<lambda>_.
        exc_bind (validate_item rc up scores ''acc'') (\<lambda>_.
        exc_bind (validate_item rc up scores ''it'') (\<lambda>_.
        exc_bind (validate_item rc up scores ''bank'') (\<lambda>_.
        exc_bind (validate_item rc up scores ''wait'') (\<lambda>_.
        exc_bind (float_item rnd scores ''acc'') (\<lambda>a.
        exc_bind (float_item rnd scores ''it'') (\<lambda>i.
        exc_bind (float_item rnd scores ''bank'') (\<lambda>b.
        exc_bind (float_item rnd scores ''wait'') (\<lambda>w.
          Inr (AList.update up [(''acc'', a), (''it'', i), (''bank'', b), (''wait'', w)]
                 predictions)))))))))))"

fun load_loop ::
  "(real \<Rightarrow> real) \<Rightarrow> score_table \<Rightarrow> nat \<Rightarrow> score_table \<Rightarrow> user_data \<Rightarrow> py_exception + score_table" where
  "load_loop rnd gt rc predictions [] = Inr predictions"
| "load_loop rnd gt rc predictions ((up, scores) # rest) =
     exc_bind (process_record rnd gt predictions (Suc rc) up scores) (\<lambda>predictions'.
       load_loop rnd gt (Suc rc) predictions' rest)"

text \<open>
  \<open>load_predictions\<close>. Its second argument is the outcome of opening and parsing the
  submission file: the text of the exception raised there, or the parsed mapping.
\<close>

definition load_predictions ::
  "(real \<Rightarrow> real) \<Rightarrow> score_table \<Rightarrow> string + user_data \<Rightarrow> py_exception + score_table" where
  "load_predictions rnd gt loaded =
     (case loaded of
        Inl e \<Rightarrow>
          Inl (Exception_msg (load_error_message @ e))
      | Inr user_data_items \<Rightarrow>
          if length (map fst user_data_items) \<noteq> length (map fst gt) then
            Inl (Exception_args count_mismatch_message (length (map fst user_data_items)))
          else load_loop rnd gt 0 [] user_data_items)"

subsection \<open>Scores\<close>

datatype pyfloat = Finite real | NaN

text \<open>
  Float addition, and the division of a float by an integer: the exact result, rounded.
  The coefficients lie between -1 and 1, so that neither overflows.
\<close>

fun fl_add :: "(real \<Rightarrow> real) \<Rightarrow> pyfloat \<Rightarrow> pyfloat \<Rightarrow> pyfloat" where
  "fl_add rnd (Finite a) (Finite b) = Finite (rnd (a + b))"
| "fl_add rnd x y = NaN"

fun fl_div :: "(real \<Rightarrow> real) \<Rightarrow> pyfloat \<Rightarrow> nat \<Rightarrow> pyfloat" where
  "fl_div rnd (Finite a) n = Finite (rnd (a / real n))"
| "fl_div rnd NaN n = NaN"

definition mean :: "real list \<Rightarrow> real" where
  "mean xs = sum_list xs / real (length xs)"

text \<open>
  Modelled from the spec: \<open>pearsonr\<close> is a function of the SciPy library, which the
  repository imports and does not contain. The spec gives the coefficient as
  \<open>r = \<Sigma>(xi - mean x)(yi - mean y) / sqrt(\<Sigma>(xi - mean x)\<^sup>2 \<sqdot> \<Sigma>(yi - mean y)\<^sup>2)\<close> and says
  that a zero denominator yields a not-a-number value.
\<close>

definition pearsonr :: "real list \<Rightarrow> real list \<Rightarrow> pyfloat" where
  "pearsonr xs ys =
     (let mx = mean xs; my = mean ys;
          num = sum_list (map (\<lambda>(x, y). (x - mx) * (y - my)) (zip xs ys));
          den = sqrt (sum_list (map (\<lambda>x. (x - mx)\<^sup>2) xs) * sum_list (map (\<lambda>y. (y - my)\<^sup>2) ys))
      in if den = 0 then NaN else Finite (num / den))"

text \<open>The loop \<open>for user in self.gt\<close>, which appends to both lists.\<close>

fun collect_values ::
  "score_table \<Rightarrow> score_table \<Rightarrow> string \<Rightarrow> real list \<Rightarrow> real list \<Rightarrow> string list \<Rightarrow>
   py_exception + (real list \<times> real list)" where
  "collect_values gt predictions sit gt_list predictions_list [] =
     Inr (gt_list, predictions_list)"
| "collect_values gt predictions sit gt_list predictions_list (user # users) =
     exc_bind (py_getitem gt user) (\<lambda>g_rec.
     exc_bind (py_getitem g_rec sit) (\<lambda>g.
     exc_bind (py_getitem predictions user) (\<lambda>p_rec.
     exc_bind (py_getitem p_rec sit) (\<lambda>p.
       collect_values gt predictions sit (gt_list @ [g]) (predictions_list @ [p]) users))))"

text \<open>The loop \<open>for sit in situations\<close>, carrying \<open>sum_correlation\<close>.\<close>

fun correlation_loop ::
  "(real \<Rightarrow> real) \<Rightarrow> score_table \<Rightarrow> score_table \<Rightarrow> pyfloat \<Rightarrow> string list \<Rightarrow> py_exception + pyfloat" where
  "correlation_loop rnd gt predictions sum_correlation [] = Inr sum_correlation"
| "correlation_loop rnd gt predictions sum_correlation (sit # sits) =
     exc_bind (collect_values gt predictions sit [] [] (map fst gt)) (\<lambda>(gt_list, predictions_list).
       correlation_loop rnd gt predictions
         (fl_add rnd sum_correlation (pearsonr gt_list predictions_list)) sits)"

definition situations :: "string list" where
  "situations = [''acc'', ''it'', ''bank'', ''wait'']"

text \<open>
  \<open>compute_primary_score\<close>. In the source \<open>situations\<close> is a set literal, and Python does
  not fix the order in which a set of strings is iterated: the first argument is that
  order, some arrangement of the four codes.
\<close>

definition compute_primary_score ::
  "(real \<Rightarrow> real) \<Rightarrow> string list \<Rightarrow> score_table \<Rightarrow> score_table \<Rightarrow> py_exception + pyfloat" where
  "compute_primary_score rnd order gt predictions =
     exc_bind (correlation_loop rnd gt predictions (Finite 0) order) (\<lambda>sum_correlation.
       Inr (fl_div rnd sum_correlation (length order)))"

definition compute_secondary_score :: "score_table \<Rightarrow> real" where
  "compute_secondary_score predictions = 0"

record result_object =
  score :: pyfloat
  score_secondary :: real

text \<open>
  \<open>_evaluate\<close>. \<open>read_json\<close> stands for the file system and the JSON parser; the context
  is threaded through, so that a write to it would show in the first component.
\<close>

definition evaluate ::
  "(real \<Rightarrow> real) \<Rightarrow> string list \<Rightarrow> (string \<Rightarrow> string + user_data) \<Rightarrow> score_table \<Rightarrow> (string \<times> string) list \<Rightarrow> 'c \<Rightarrow>
   'c \<times> (py_exception + result_object)" where
  "evaluate rnd order read_json gt client_payload context =
     (context,
      exc_bind (py_getitem client_payload ''submission_file_path'') (\<lambda>submission_file_path.
      exc_bind (load_predictions rnd gt (read_json submission_file_path)) (\<lambda>predictions.
      exc_bind (compute_primary_score rnd order gt predictions) (\<lambda>score_pearson_correlation_coefficient.
        Inr \<lparr>score = score_pearson_correlation_coefficient,
             score_secondary = compute_secondary_score predictions\<rparr>))))"

subsection \<open>Notions used to state the properties\<close>

text \<open>
  What the validation accepts, what is stored for an accepted record, and the text of each
  rejection, written out; the lemmas below relate them to the functions above.
\<close>

definition is_number :: "jval \<Rightarrow> bool" where
  "is_number v = (type_name v = ''int'' \<or> type_name v = ''float'')"

fun fits_float :: "jval \<Rightarrow> bool" where
  "fits_float (JInt i) = (\<not> float_overflow i)"
| "fits_float v = True"

fun number_value :: "(real \<Rightarrow> real) \<Rightarrow> jval \<Rightarrow> real" where
  "number_value rnd (JInt i) = rnd (of_int i)"
| "number_value rnd (JFloat r) = r"
| "number_value rnd v = 0"

definition float_record :: "(real \<Rightarrow> real) \<Rightarrow> scores_json \<Rightarrow> (string \<times> real) list" where
  "float_record rnd scores =
     map (\<lambda>code. (code, number_value rnd (the (map_of scores code)))) REQUIRED_SITUATION_CODES"

text \<open>
  A record that passes the four checks of the validation, and a valid record: one that
  passes them and whose four numbers can be converted to floats.
\<close>

definition checked_record :: "score_table \<Rightarrow> string \<times> scores_json \<Rightarrow> bool" where
  "checked_record gt r =
     (fst r \<in> set (map fst gt) \<and> length (snd r) = 4 \<and>
      list_all (\<lambda>k. k \<in> set REQUIRED_SITUATION_CODES) (map fst (snd r)) \<and>
      list_all (\<lambda>code. case map_of (snd r) code of None \<Rightarrow> False | Some v \<Rightarrow> is_number v)
        REQUIRED_SITUATION_CODES)"

definition valid_record :: "score_table \<Rightarrow> string \<times> scores_json \<Rightarrow> bool" where
  "valid_record gt r =
     (checked_record gt r \<and>
      list_all (\<lambda>code. case map_of (snd r) code of None \<Rightarrow> True | Some v \<Rightarrow> fits_float v)
        REQUIRED_SITUATION_CODES)"

definition record_suffix :: "nat \<Rightarrow> string" where
  "record_suffix rc = '' Error occured at record nbr '' @ str_nat rc @ ''.''"

definition unknown_profile_message :: "string \<Rightarrow> nat \<Rightarrow> string" where
  "unknown_profile_message up rc =
     ''User profile '' @ repr_str up @ '' does not exist in gt set.'' @ record_suffix rc"

definition field_count_message :: "string \<Rightarrow> nat \<Rightarrow> string" where
  "field_count_message up rc =
     ''User profile '' @ repr_str up @
     '' must contain exactly 4 key/value pairs where key=situation_code and value=score '' @
     ''(Required situation codes: ('acc', 'it', 'bank', 'wait')).'' @ record_suffix rc"

definition unknown_code_message :: "string \<Rightarrow> string \<Rightarrow> nat \<Rightarrow> string" where
  "unknown_code_message code up rc =
     ''Situation code '' @ repr_str code @ '' for user profile '' @ repr_str up @
     '' does not exist (Possible situation codes: ('acc', 'it', 'bank', 'wait')).'' @
     record_suffix rc"

definition not_a_number_message :: "string \<Rightarrow> string \<Rightarrow> nat \<Rightarrow> string" where
  "not_a_number_message code up rc =
     ''Score for situtation code '' @ repr_str code @ '' for user profile '' @ repr_str up @
     '' must be a number. In case it is a number make sure that you remove the quotes. '' @
     record_suffix rc"

definition first_not_number :: "scores_json \<Rightarrow> string option" where
  "first_not_number scores =
     find (\<lambda>code. case map_of scores code of None \<Rightarrow> True | Some v \<Rightarrow> \<not> is_number v)
       REQUIRED_SITUATION_CODES"

text \<open>The first required code whose value is too large for a float.\<close>

definition first_overflow :: "scores_json \<Rightarrow> string option" where
  "first_overflow scores =
     find (\<lambda>code. case map_of scores code of None \<Rightarrow> False | Some v \<Rightarrow> \<not> fits_float v)
       REQUIRED_SITUATION_CODES"

definition store_record :: "(real \<Rightarrow> real) \<Rightarrow> string \<times> scores_json \<Rightarrow> score_table \<Rightarrow> score_table" where
  "store_record rnd r predictions = AList.update (fst r) (float_record rnd (snd r)) predictions"

text \<open>
  The ground truth of the spec's example, and a submission for it that lists the profiles
  and the fields in another order.
\<close>

definition gt_example :: score_table where
  "gt_example =
     [(''u1'', [(''acc'', 10), (''it'', 20), (''bank'', 30), (''wait'', 40)]),
      (''u2'', [(''acc'', 20), (''it'', 10), (''bank'', 10), (''wait'', 20)])]"

definition submission_example :: user_data where
  "submission_example =
     [(''u2'', [(''wait'', JInt 25), (''acc'', JFloat 10.5), (''it'', JInt 20), (''bank'', JFloat 8.5)]),
      (''u1'', [(''acc'', JFloat 0.5), (''it'', JInt 30), (''bank'', JFloat 28.5), (''wait'', JInt 5)])]"

definition predictions_example :: score_table where
  "predictions_example =
     [(''u2'', [(''acc'', 10.5), (''it'', 20), (''bank'', 8.5), (''wait'', 25)]),
      (''u1'', [(''acc'', 0.5), (''it'', 30), (''bank'', 28.5), (''wait'', 5)])]"

text \<open>A table of numbers written as the JSON mapping that holds the same values.\<close>

definition json_record :: "(string \<times> real) list \<Rightarrow> scores_json" where
  "json_record r = map (\<lambda>(code, x). (code, JFloat x)) r"

definition json_of_table :: "score_table \<Rightarrow> user_data" where
  "json_of_table t = map (\<lambda>r. (fst r, json_record (snd r))) t"

text \<open>A ground truth whose \<open>acc\<close> column is constant.\<close>

definition gt_constant_example :: score_table where
  "gt_constant_example =
     [(''u1'', [(''acc'', 10), (''it'', 20), (''bank'', 30), (''wait'', 40)]),
      (''u2'', [(''acc'', 10), (''it'', 10), (''bank'', 10), (''wait'', 20)]),
      (''u3'', [(''acc'', 10), (''it'', 30), (''bank'', 20), (''wait'', 30)])]"

text \<open>
  The value a table holds for a profile and a code, whether it holds one, and the
  coefficient of one situation code as the spec words it: both vectors follow the profiles
  of the ground truth in its order.
\<close>

definition table_value :: "score_table \<Rightarrow> string \<Rightarrow> string \<Rightarrow> real" where
  "table_value t profile code = the (map_of (the (map_of t profile)) code)"

definition defined_at :: "score_table \<Rightarrow> string \<Rightarrow> string \<Rightarrow> bool" where
  "defined_at t profile code =
     (case map_of t profile of None \<Rightarrow> False | Some r \<Rightarrow> map_of r code \<noteq> None)"

definition situation_correlation :: "score_table \<Rightarrow> score_table \<Rightarrow> string \<Rightarrow> pyfloat" where
  "situation_correlation gt predictions code =
     pearsonr (map (\<lambda>profile. table_value gt profile code) (map fst gt))
              (map (\<lambda>profile. table_value predictions profile code) (map fst gt))"

text \<open>
  The primary score as the spec words it: the four coefficients summed and divided by 4.
  The sum is the float sum in the order \<open>order\<close> in which the codes are taken, starting
  from 0.
\<close>

definition fl_sum :: "(real \<Rightarrow> real) \<Rightarrow> pyfloat list \<Rightarrow> pyfloat" where
  "fl_sum rnd xs = fold (\<lambda>x acc. fl_add rnd acc x) xs (Finite 0)"

definition mean_pearson ::
  "(real \<Rightarrow> real) \<Rightarrow> string list \<Rightarrow> score_table \<Rightarrow> score_table \<Rightarrow> pyfloat" where
  "mean_pearson rnd order gt predictions =
     fl_div rnd (fl_sum rnd (map (situation_correlation gt predictions) order)) 4"

text \<open>
  The examples hold small multiples of 1/2 only, which rounding to a float leaves as they
  are, as it does with every value computed from them below: they are evaluated with the
  rounding that changes nothing.
\<close>

definition no_rounding :: "real \<Rightarrow> real" where
  "no_rounding x = x"

text \<open>
  A table in which every record has a value for each code; a record with exactly the four
  codes as keys; a vector whose entries are all the same (the empty one included).
\<close>

definition complete_table :: "score_table \<Rightarrow> bool" where
  "complete_table t = list_all (\<lambda>r. list_all (\<lambda>code. map_of (snd r) code \<noteq> None) situations) t"

definition four_codes :: "(string \<times> 'a) list \<Rightarrow> bool" where
  "four_codes r =
     (length r = 4 \<and> list_all (\<lambda>k. k \<in> set REQUIRED_SITUATION_CODES) (map fst r) \<and>
      distinct (map fst r))"

definition constant_vector :: "real list \<Rightarrow> bool" where
  "constant_vector xs = list_all (\<lambda>x. x = hd xs) xs"

text \<open>The ground-truth values of one code, in the order of the profiles.\<close>

definition gt_column :: "score_table \<Rightarrow> string \<Rightarrow> real list" where
  "gt_column gt code = map (\<lambda>profile. table_value gt profile code) (map fst gt)"

text \<open>
  A submission that repeats the ground truth: it is a mapping with the same profiles, each
  record has the fields of the ground-truth record, and each value is an int or a float
  that \<open>float\<close> turns into the ground-truth value. The order of profiles and of fields is
  free.
\<close>

definition copies_record :: "(real \<Rightarrow> real) \<Rightarrow> scores_json \<Rightarrow> (string \<times> real) list \<Rightarrow> bool" where
  "copies_record rnd scores r =
     (length scores = length r \<and> set (map fst scores) = set (map fst r) \<and>
      list_all (\<lambda>cx. case map_of scores (fst cx) of
                        None \<Rightarrow> False
                      | Some v \<Rightarrow> is_number v \<and> py_float rnd v = Inr (snd cx)) r)"

definition copies_table :: "(real \<Rightarrow> real) \<Rightarrow> user_data \<Rightarrow> score_table \<Rightarrow> bool" where
  "copies_table rnd sub gt =
     (distinct (map fst sub) \<and> length sub = length gt \<and>
      set (map fst sub) = set (map fst gt) \<and>
      list_all (\<lambda>g. case map_of sub (fst g) of
                       None \<Rightarrow> False
                     | Some scores \<Rightarrow> copies_record rnd scores (snd g)) gt)"

text \<open>
  \<open>str(e)\<close> of the two shapes of \<open>Exception\<close>; the text of the interpreter's own
  exceptions is not modelled. With two arguments it is the text of the argument tuple.
\<close>

fun exception_text :: "py_exception \<Rightarrow> string option" where
  "exception_text (Exception_msg m) = Some m"
| "exception_text (Exception_args m n) = Some (''('' @ repr_str m @ '', '' @ str_nat n @ '')'')"
| "exception_text e = None"

text \<open>
  The situation code a rejection of a record with four fields is about: the first key that
  is no situation code or, when all keys are, the first required code (in the order acc,
  it, bank, wait) whose value is missing or no number.
\<close>

definition code_at_fault :: "scores_json \<Rightarrow> string option" where
  "code_at_fault scores =
     (case find (\<lambda>k. k \<notin> set REQUIRED_SITUATION_CODES) (map fst scores) of
        Some code \<Rightarrow> Some code
      | None \<Rightarrow> first_not_number scores)"

text \<open>Submissions for the ground truth of the example that are rejected.\<close>

definition record_u1 :: scores_json where
  "record_u1 = [(''acc'', JInt 10), (''it'', JInt 20), (''bank'', JInt 30), (''wait'', JInt 40)]"

definition record_u2 :: scores_json where
  "record_u2 = [(''acc'', JInt 20), (''it'', JInt 10), (''bank'', JInt 10), (''wait'', JInt 20)]"

definition unknown_profile_submission :: user_data where
  "unknown_profile_submission = [(''u1'', record_u1), (''u3'', record_u2)]"

definition short_record_submission :: user_data where
  "short_record_submission =
     [(''u1'', [(''acc'', JInt 10), (''it'', JInt 20), (''bank'', JInt 30)]), (''u3'', record_u2)]"

definition string_score_record :: scores_json where
  "string_score_record =
     [(''acc'', JInt 20), (''it'', JString ''22.4''), (''bank'', JInt 10), (''wait'', JNull)]"

definition string_score_submission :: user_data where
  "string_score_submission = [(''u1'', record_u1), (''u2'', string_score_record)]"

definition extra_field_record :: scores_json where
  "extra_field_record =
     [(''acc'', JString ''22.4''), (''it'', JInt 20), (''bank'', JInt 30), (''wait'', JInt 40),
      (''extra'', JInt 1)]"

definition extra_field_submission :: user_data where
  "extra_field_submission = [(''u1'', extra_field_record), (''u2'', record_u2)]"

text \<open>
  The example of the spec with its integers, the fields of one record in another order,
  and a submission whose first record holds an integer too large for a float.
\<close>

definition integer_submission :: user_data where
  "integer_submission =
     [(''u2'', [(''wait'', JInt 20), (''acc'', JInt 20), (''it'', JInt 10), (''bank'', JFloat 10)]),
      (''u1'', record_u1)]"

definition huge_int_submission :: user_data where
  "huge_int_submission =
     [(''u1'', [(''acc'', JInt (10 ^ 400)), (''it'', JInt 20), (''bank'', JInt 30), (''wait'', JInt 40)]),
      (''u3'', record_u2)]"

section \<open>Properties of the validation\<close>

subsection \<open>Messages and the checks of one record\<close>

lemma is_number_cases: "is_number v \<longleftrightarrow> (\<exists>i. v = JInt i) \<or> (\<exists>r. v = JFloat r)"
  by (cases v) (simp_all add: is_number_def)

lemma py_float_number:
  "is_number v \<Longrightarrow>
   py_float rnd v = (if fits_float v then Inr (number_value rnd v) else Inl OverflowError)"
  by (auto simp: is_number_cases)

lemma raise_unknown_profile:
  "raise_exception unknown_profile_template rc [up] = Exception_msg (unknown_profile_message up rc)"
  by (simp add: raise_exception_def unknown_profile_template_def unknown_profile_message_def
      record_suffix_def repr_str_def)

lemma raise_field_count:
  "raise_exception field_count_template rc [up, str_tuple REQUIRED_SITUATION_CODES] =
     Exception_msg (field_count_message up rc)"
  by (simp add: raise_exception_def field_count_template_def field_count_message_def
      record_suffix_def repr_str_def str_tuple_def REQUIRED_SITUATION_CODES_def)

lemma raise_unknown_code:
  "raise_exception unknown_code_template rc [code, up, str_tuple REQUIRED_SITUATION_CODES] =
     Exception_msg (unknown_code_message code up rc)"
  by (simp add: raise_exception_def unknown_code_template_def unknown_code_message_def
      record_suffix_def repr_str_def str_tuple_def REQUIRED_SITUATION_CODES_def)

lemma raise_not_number:
  "raise_exception not_a_number_template rc [code, up] =
     Exception_msg (not_a_number_message code up rc)"
  by (simp add: raise_exception_def not_a_number_template_def not_a_number_message_def
      record_suffix_def repr_str_def)

lemma check_situation_codes_ok:
  "list_all (\<lambda>k. k \<in> set REQUIRED_SITUATION_CODES) ks \<Longrightarrow> check_situation_codes rc up ks = Inr ()"
  by (induction ks) simp_all

lemma validate_item_number:
  "map_of scores code = Some v \<Longrightarrow> is_number v \<Longrightarrow> validate_item rc up scores code = Inr ()"
  by (simp add: validate_item_def py_getitem_def exc_bind_def validate_score_def is_number_def)

lemma validate_item_not_number:
  "map_of scores code = Some v \<Longrightarrow> \<not> is_number v \<Longrightarrow>
   validate_item rc up scores code = Inl (Exception_msg (not_a_number_message code up rc))"
  by (simp add: validate_item_def py_getitem_def exc_bind_def validate_score_def is_number_def
      raise_not_number)

lemma validate_item_missing:
  "map_of scores code = None \<Longrightarrow> validate_item rc up scores code = Inl (KeyError code)"
  by (simp add: validate_item_def py_getitem_def exc_bind_def)

lemma float_item_number:
  "map_of scores code = Some v \<Longrightarrow> is_number v \<Longrightarrow>
   float_item rnd scores code =
     (if fits_float v then Inr (number_value rnd v) else Inl OverflowError)"
  by (simp add: float_item_def py_getitem_def exc_bind_def py_float_number)

lemma process_record_floats:
  assumes "checked_record gt (up, scores)"
  shows "process_record rnd gt predictions rc up scores =
           (case first_overflow scores of
              None \<Rightarrow> Inr (AList.update up (float_record rnd scores) predictions)
            | Some code \<Rightarrow> Inl OverflowError)"
proof -
  from assms obtain a i b w where
    v: "map_of scores ''acc'' = Some a" "is_number a" "map_of scores ''it'' = Some i" "is_number i"
       "map_of scores ''bank'' = Some b" "is_number b" "map_of scores ''wait'' = Some w" "is_number w"
    by (auto simp: checked_record_def REQUIRED_SITUATION_CODES_def split: option.splits)
  from assms have k: "up \<in> set (map fst gt)" "length scores = 4"
    "check_situation_codes rc up (map fst scores) = Inr ()"
    by (simp_all add: checked_record_def check_situation_codes_ok)
  show ?thesis
    using k v
    by (simp add: process_record_def validate_item_number float_item_number exc_bind_def
        float_record_def first_overflow_def REQUIRED_SITUATION_CODES_def)
qed

lemma valid_record_no_overflow:
  "valid_record gt (up, scores) \<longleftrightarrow>
     checked_record gt (up, scores) \<and> first_overflow scores = None"
  by (auto simp: valid_record_def first_overflow_def find_None_iff list_all_iff
      split: option.splits)

lemma process_record_valid:
  assumes "valid_record gt (up, scores)"
  shows "process_record rnd gt predictions rc up scores =
           Inr (AList.update up (float_record rnd scores) predictions)"
  using assms by (simp add: valid_record_no_overflow process_record_floats)

lemma required_codes_present:
  assumes "length scores = 4"
    and "list_all (\<lambda>k. k \<in> set REQUIRED_SITUATION_CODES) (map fst scores)"
    and "distinct (map fst scores)"
    and "code \<in> set REQUIRED_SITUATION_CODES"
  shows "\<exists>v. map_of scores code = Some v"
proof -
  have sub: "set (map fst scores) \<subseteq> set REQUIRED_SITUATION_CODES"
    using assms(2) by (auto simp: list_all_iff)
  have "card (set (map fst scores)) = 4"
    using distinct_card [OF assms(3)] assms(1) by simp
  moreover have "card (set REQUIRED_SITUATION_CODES) = 4"
    by (simp add: REQUIRED_SITUATION_CODES_def)
  ultimately have "set (map fst scores) = set REQUIRED_SITUATION_CODES"
    using sub by (simp add: card_subset_eq)
  with assms(4) have "code \<in> fst ` set scores" by simp
  then show ?thesis
    by (cases "map_of scores code") (simp_all add: map_of_eq_None_iff)
qed

lemma validate_item_cases:
  "validate_item rc up scores code =
     (case map_of scores code of
        None \<Rightarrow> Inl (KeyError code)
      | Some v \<Rightarrow> if is_number v then Inr ()
                  else Inl (Exception_msg (not_a_number_message code up rc)))"
  by (simp add: validate_item_number validate_item_not_number validate_item_missing
      split: option.splits)

lemma checked_record_iff:
  "checked_record gt (up, scores) \<longleftrightarrow>
     up \<in> set (map fst gt) \<and> length scores = 4 \<and>
     find (\<lambda>k. k \<notin> set REQUIRED_SITUATION_CODES) (map fst scores) = None \<and>
     first_not_number scores = None"
  by (auto simp: checked_record_def first_not_number_def find_None_iff list_all_iff
      split: option.splits)

lemma process_record_checked:
  assumes "up \<in> set (map fst gt)" and "length scores = 4"
    and "list_all (\<lambda>k. k \<in> set REQUIRED_SITUATION_CODES) (map fst scores)"
  shows "process_record rnd gt predictions rc up scores =
           (case first_not_number scores of
              None \<Rightarrow>
                (case first_overflow scores of
                   None \<Rightarrow> Inr (AList.update up (float_record rnd scores) predictions)
                 | Some code \<Rightarrow> Inl OverflowError)
            | Some code \<Rightarrow>
                (case map_of scores code of
                   None \<Rightarrow> Inl (KeyError code)
                 | Some v \<Rightarrow> Inl (Exception_msg (not_a_number_message code up rc))))"
proof (cases "first_not_number scores")
  case None
  then have "checked_record gt (up, scores)"
    using assms by (simp add: checked_record_iff find_None_iff list_all_iff)
  then show ?thesis using None by (simp add: process_record_floats)
next
  case (Some code)
  have k: "check_situation_codes rc up (map fst scores) = Inr ()"
    using assms(3) by (rule check_situation_codes_ok)
  show ?thesis
    using Some assms(1,2) k
    by (auto simp: first_not_number_def REQUIRED_SITUATION_CODES_def process_record_def
        validate_item_cases exc_bind_def split: if_splits option.splits)
qed

lemma check_situation_codes_find:
  "check_situation_codes rc up ks =
     (case find (\<lambda>k. k \<notin> set REQUIRED_SITUATION_CODES) ks of
        None \<Rightarrow> Inr ()
      | Some code \<Rightarrow> Inl (Exception_msg (unknown_code_message code up rc)))"
  by (induction ks) (simp_all add: raise_unknown_code)

lemma process_record_cases:
  "process_record rnd gt predictions rc up scores =
     (if up \<notin> set (map fst gt) then Inl (Exception_msg (unknown_profile_message up rc))
      else if length scores \<noteq> 4 then Inl (Exception_msg (field_count_message up rc))
      else
        (case find (\<lambda>k. k \<notin> set REQUIRED_SITUATION_CODES) (map fst scores) of
           Some code \<Rightarrow> Inl (Exception_msg (unknown_code_message code up rc))
         | None \<Rightarrow>
            (case first_not_number scores of
               None \<Rightarrow>
                 (case first_overflow scores of
                    None \<Rightarrow> Inr (AList.update up (float_record rnd scores) predictions)
                  | Some code \<Rightarrow> Inl OverflowError)
             | Some code \<Rightarrow>
                 (case map_of scores code of
                    None \<Rightarrow> Inl (KeyError code)
                  | Some v \<Rightarrow> Inl (Exception_msg (not_a_number_message code up rc))))))"
proof (cases "up \<in> set (map fst gt) \<and> length scores = 4")
  case False
  then show ?thesis
    by (auto simp: process_record_def raise_unknown_profile raise_field_count)
next
  case True
  show ?thesis
  proof (cases "find (\<lambda>k. k \<notin> set REQUIRED_SITUATION_CODES) (map fst scores)")
    case None
    then have "list_all (\<lambda>k. k \<in> set REQUIRED_SITUATION_CODES) (map fst scores)"
      by (auto simp: find_None_iff list_all_iff)
    with True None show ?thesis
      by (simp add: process_record_checked)
  next
    case (Some code)
    with True show ?thesis
      by (simp add: process_record_def check_situation_codes_find exc_bind_def)
  qed
qed

lemma valid_record_iff:
  "valid_record gt (up, scores) \<longleftrightarrow>
     up \<in> set (map fst gt) \<and> length scores = 4 \<and>
     find (\<lambda>k. k \<notin> set REQUIRED_SITUATION_CODES) (map fst scores) = None \<and>
     first_not_number scores = None \<and> first_overflow scores = None"
  by (auto simp: valid_record_no_overflow checked_record_iff)

lemma process_record_Inr_iff:
  "(\<exists>p. process_record rnd gt predictions rc up scores = Inr p) \<longleftrightarrow> valid_record gt (up, scores)"
  by (auto simp: process_record_cases valid_record_iff split: option.splits)

lemma process_record_invalid:
  "\<not> valid_record gt (up, scores) \<Longrightarrow> \<exists>e. process_record rnd gt predictions rc up scores = Inl e"
  using process_record_Inr_iff [of rnd gt predictions rc up scores]
  by (cases "process_record rnd gt predictions rc up scores") auto

lemma load_loop_valid:
  "list_all (valid_record gt) sub \<Longrightarrow>
   load_loop rnd gt rc predictions sub = Inr (fold (store_record rnd) sub predictions)"
proof (induction sub arbitrary: rc predictions)
  case Nil
  then show ?case by simp
next
  case (Cons r sub)
  obtain up scores where r: "r = (up, scores)" by (cases r)
  from Cons.prems have "valid_record gt (up, scores)" "list_all (valid_record gt) sub"
    by (simp_all add: r)
  then show ?case
    by (simp add: r process_record_valid exc_bind_def Cons.IH store_record_def)
qed

lemma load_loop_first_invalid:
  "list_all (valid_record gt) pre \<Longrightarrow> \<not> valid_record gt (up, scores) \<Longrightarrow>
   load_loop rnd gt rc predictions (pre @ (up, scores) # post) =
     process_record rnd gt (fold (store_record rnd) pre predictions) (Suc (rc + length pre)) up scores"
proof (induction pre arbitrary: rc predictions)
  case Nil
  then obtain e where "process_record rnd gt predictions (Suc rc) up scores = Inl e"
    using process_record_invalid by blast
  then show ?case by (simp add: exc_bind_def)
next
  case (Cons r pre)
  obtain up' scores' where r: "r = (up', scores')" by (cases r)
  from Cons.prems have "valid_record gt (up', scores')" "list_all (valid_record gt) pre"
    by (simp_all add: r)
  then show ?case
    using Cons.IH [OF _ Cons.prems(2)]
    by (simp add: r process_record_valid exc_bind_def store_record_def)
qed

lemma load_loop_Inr_valid:
  "load_loop rnd gt rc predictions sub = Inr p \<Longrightarrow> list_all (valid_record gt) sub"
proof (induction sub arbitrary: rc predictions)
  case Nil
  then show ?case by simp
next
  case (Cons r sub)
  obtain up scores where r: "r = (up, scores)" by (cases r)
  from Cons.prems obtain p' where
    p': "process_record rnd gt predictions (Suc rc) up scores = Inr p'"
    and rest: "load_loop rnd gt (Suc rc) p' sub = Inr p"
    by (auto simp: r exc_bind_def split: sum.splits)
  from p' have "valid_record gt (up, scores)"
    using process_record_Inr_iff by blast
  with Cons.IH [OF rest] show ?case by (simp add: r)
qed

subsection \<open>The loop over the records\<close>

lemma find_Some_holds: "find P xs = Some x \<Longrightarrow> x \<in> set xs \<and> P x"
  by (induction xs) (auto split: if_splits)

lemma store_record_keys:
  "distinct (map fst sub) \<Longrightarrow> set (map fst sub) \<inter> set (map fst p) = {} \<Longrightarrow>
   map fst (fold (store_record rnd) sub p) = map fst p @ map fst sub"
proof (induction sub arbitrary: p)
  case Nil
  then show ?case by simp
next
  case (Cons r sub)
  have k: "map fst (store_record rnd r p) = map fst p @ [fst r]"
    using Cons.prems by (auto simp: store_record_def update_keys)
  then have "set (map fst sub) \<inter> set (map fst (store_record rnd r p)) = {}"
    using Cons.prems by auto
  with Cons.prems Cons.IH [of "store_record rnd r p"] k show ?case by simp
qed

lemma load_predictions_Inr:
  assumes "load_predictions rnd gt (Inr sub) = Inr predictions"
  shows "length sub = length gt \<and> list_all (valid_record gt) sub \<and>
         predictions = fold (store_record rnd) sub []"
proof -
  from assms have len: "length sub = length gt" and
    loop: "load_loop rnd gt 0 [] sub = Inr predictions"
    by (auto simp: load_predictions_def split: if_splits)
  from loop have "list_all (valid_record gt) sub" by (rule load_loop_Inr_valid)
  with loop len show ?thesis by (simp add: load_loop_valid)
qed

lemma validated_keys:
  assumes "length sub = length gt" and "list_all (valid_record gt) sub"
    and "distinct (map fst sub)"
  shows "set (map fst sub) = set (map fst gt)"
proof -
  have sub: "set (map fst sub) \<subseteq> set (map fst gt)"
    using assms(2) by (auto simp: list_all_iff valid_record_def checked_record_def)
  have "card (set (map fst gt)) \<le> length (map fst gt)" by (rule card_length)
  also have "\<dots> = card (set (map fst sub))"
    using distinct_card [OF assms(3)] assms(1) by simp
  finally show ?thesis using sub by (simp add: card_seteq)
qed

lemma small_int_fits: "\<bar>i\<bar> < 2 ^ 53 \<Longrightarrow> \<not> float_overflow i"
proof -
  have "(2::int) ^ 53 \<le> 2 ^ 1024 - 2 ^ 970" by simp
  then show "\<bar>i\<bar> < 2 ^ 53 \<Longrightarrow> \<not> float_overflow i"
    by (simp add: float_overflow_def)
qed

lemmas validation_defs =
  load_predictions_def process_record_def exc_bind_def validate_item_def float_item_def
  py_getitem_def validate_score_def REQUIRED_SITUATION_CODES_def small_int_fits no_rounding_def

lemma load_submission_example:
  "load_predictions no_rounding gt_example (Inr submission_example) = Inr predictions_example"
  by (simp add: validation_defs gt_example_def submission_example_def predictions_example_def)

section \<open>Properties of the scores\<close>

lemma collect_values_eq:
  assumes "\<forall>u \<in> set users. u \<in> set (map fst gt) \<and> defined_at predictions u sit"
  shows "collect_values gt predictions sit gl pl users =
           (if \<forall>u \<in> set users. defined_at gt u sit then
              Inr (gl @ map (\<lambda>u. table_value gt u sit) users,
                   pl @ map (\<lambda>u. table_value predictions u sit) users)
            else Inl (KeyError sit))"
  using assms
proof (induction users arbitrary: gl pl)
  case Nil
  then show ?case by simp
next
  case (Cons u users)
  from Cons.prems obtain g_rec where g: "map_of gt u = Some g_rec"
    by (cases "map_of gt u") (auto simp: map_of_eq_None_iff)
  from Cons.prems obtain p_rec p where p: "map_of predictions u = Some p_rec" "map_of p_rec sit = Some p"
    by (auto simp: defined_at_def split: option.splits)
  have rest: "\<forall>u \<in> set users. u \<in> set (map fst gt) \<and> defined_at predictions u sit"
    using Cons.prems by simp
  show ?case
  proof (cases "map_of g_rec sit")
    case None
    then show ?thesis using g by (simp add: py_getitem_def exc_bind_def defined_at_def)
  next
    case (Some gv)
    then show ?thesis
      using g p Cons.IH [OF rest]
      by (simp add: py_getitem_def exc_bind_def defined_at_def table_value_def)
  qed
qed

lemma correlation_loop_eq:
  assumes "\<forall>sit \<in> set sits. \<forall>u \<in> set (map fst gt). defined_at gt u sit \<and> defined_at predictions u sit"
  shows "correlation_loop rnd gt predictions s sits =
           Inr (fold (\<lambda>sit acc. fl_add rnd acc (situation_correlation gt predictions sit)) sits s)"
  using assms
proof (induction sits arbitrary: s)
  case Nil
  then show ?case by simp
next
  case (Cons sit sits)
  have c: "collect_values gt predictions sit [] [] (map fst gt) =
             Inr (map (\<lambda>u. table_value gt u sit) (map fst gt),
                  map (\<lambda>u. table_value predictions u sit) (map fst gt))"
    using Cons.prems by (subst collect_values_eq) auto
  show ?case
    using Cons.prems
    by (simp add: c exc_bind_def Cons.IH situation_correlation_def del: map_map)
qed

lemma fl_sum_map:
  "fl_sum rnd (map f xs) = fold (\<lambda>x acc. fl_add rnd acc (f x)) xs (Finite 0)"
  by (simp add: fl_sum_def fold_map o_def)

lemma length_order: "mset order = mset situations \<Longrightarrow> length order = 4"
  using mset_eq_length [of order situations] by (simp add: situations_def)

lemma map_of_rev_distinct: "distinct (map fst xs) \<Longrightarrow> map_of (rev xs) = map_of xs"
  using map_of_inject_set [of "rev xs" xs] by (simp add: rev_map [symmetric])

lemma map_of_store_record:
  "map_of (store_record rnd r p) = (map_of p)(fst r \<mapsto> float_record rnd (snd r))"
  by (simp add: store_record_def update_conv')

lemma map_of_stored:
  "map_of (fold (store_record rnd) sub p) u =
     (case map_of (rev sub) u of None \<Rightarrow> map_of p u | Some sc \<Rightarrow> Some (float_record rnd sc))"
proof (induction sub arbitrary: p)
  case Nil
  then show ?case by simp
next
  case (Cons r sub)
  show ?case
    by (simp add: Cons.IH map_of_store_record map_add_def split: option.splits)
qed

lemma map_of_predictions:
  "distinct (map fst sub) \<Longrightarrow>
   map_of (fold (store_record rnd) sub []) u = map_option (float_record rnd) (map_of sub u)"
  by (simp add: map_of_stored map_of_rev_distinct split: option.splits)

lemma float_record_defined:
  "code \<in> set situations \<Longrightarrow> map_of (float_record rnd sc) code \<noteq> None"
  by (auto simp: float_record_def situations_def REQUIRED_SITUATION_CODES_def)

lemma predictions_defined:
  assumes "distinct (map fst sub)" and "u \<in> set (map fst sub)" and "code \<in> set situations"
  shows "defined_at (fold (store_record rnd) sub []) u code"
proof -
  from assms(2) obtain sc where "map_of sub u = Some sc"
    by (cases "map_of sub u") (auto simp: map_of_eq_None_iff)
  then show ?thesis
    using float_record_defined [OF assms(3)]
    by (simp add: defined_at_def map_of_predictions [OF assms(1)])
qed

lemma complete_table_defined:
  assumes "complete_table t" and "u \<in> set (map fst t)" and "code \<in> set situations"
  shows "defined_at t u code"
proof -
  from assms(2) obtain r where r: "map_of t u = Some r"
    by (cases "map_of t u") (auto simp: map_of_eq_None_iff)
  then have "(u, r) \<in> set t" by (rule map_of_SomeD)
  with assms(1,3) have "map_of r code \<noteq> None"
    by (auto simp: complete_table_def list_all_iff)
  with r show ?thesis by (simp add: defined_at_def)
qed

lemma sum_list_map_permute:
  fixes h :: "'a \<Rightarrow> real"
  assumes "mset xs = mset ys"
  shows "sum_list (map h xs) = sum_list (map h ys)"
proof -
  have "sum_list (map h xs) = sum_mset (image_mset h (mset xs))"
    by (simp add: sum_mset_sum_list [symmetric])
  also have "\<dots> = sum_list (map h ys)"
    by (simp add: assms sum_mset_sum_list [symmetric])
  finally show ?thesis .
qed

lemma pearsonr_map:
  "pearsonr (map f us) (map g us) =
     (let mx = sum_list (map f us) / real (length us);
          my = sum_list (map g us) / real (length us);
          num = sum_list (map (\<lambda>u. (f u - mx) * (g u - my)) us);
          den = sqrt (sum_list (map (\<lambda>u. (f u - mx)\<^sup>2) us) * sum_list (map (\<lambda>u. (g u - my)\<^sup>2) us))
      in if den = 0 then NaN else Finite (num / den))"
  by (simp add: pearsonr_def mean_def Let_def zip_map_map zip_same_conv_map o_def)

lemma pearsonr_permute:
  assumes "mset us' = mset us"
  shows "pearsonr (map f us') (map g us') = pearsonr (map f us) (map g us)"
  by (simp only: pearsonr_map sum_list_map_permute [OF assms] mset_eq_length [OF assms])

lemma squares_sum_pos:
  assumes "\<not> constant_vector xs"
  shows "0 < sum_list (map (\<lambda>x. (x - m)\<^sup>2) xs)"
proof -
  let ?S = "sum_list (map (\<lambda>x. (x - m)\<^sup>2) xs)"
  have nn: "0 \<le> ?S" by (rule sum_list_nonneg) auto
  have "?S \<noteq> 0"
  proof
    assume "?S = 0"
    then have "\<forall>y \<in> set (map (\<lambda>x. (x - m)\<^sup>2) xs). y = 0"
      by (subst (asm) sum_list_nonneg_eq_0_iff) auto
    then have all: "\<forall>x \<in> set xs. x = m" by auto
    then have "\<forall>x \<in> set xs. x = hd xs"
      by (cases xs) auto
    with assms show False by (simp add: constant_vector_def list_all_iff)
  qed
  with nn show ?thesis by simp
qed

lemma pearsonr_self:
  assumes "\<not> constant_vector xs"
  shows "pearsonr xs xs = Finite 1"
proof -
  let ?S = "sum_list (map (\<lambda>x. (x - mean xs)\<^sup>2) xs)"
  have pos: "0 < ?S" using assms by (rule squares_sum_pos)
  have num: "sum_list (map (\<lambda>(x, y). (x - mean xs) * (y - mean xs)) (zip xs xs)) = ?S"
    by (simp add: zip_same_conv_map o_def power2_eq_square)
  have "sqrt (?S * ?S) = ?S" using pos by simp
  then show ?thesis using pos by (simp add: pearsonr_def Let_def num)
qed

lemma table_value_cong: "map_of t' = map_of t \<Longrightarrow> table_value t' = table_value t"
  by (simp add: table_value_def fun_eq_iff)

lemma defined_at_cong: "map_of t' = map_of t \<Longrightarrow> defined_at t' = defined_at t"
  by (simp add: defined_at_def fun_eq_iff)

lemma correlation_loop_cong:
  assumes "map_of gt' = map_of gt" and "mset (map fst gt') = mset (map fst gt)"
    and "map_of p' = map_of p"
    and "\<forall>sit \<in> set sits. \<forall>u \<in> set (map fst gt). defined_at p u sit"
  shows "correlation_loop rnd gt' p' s sits = correlation_loop rnd gt p s sits"
  using assms(4)
proof (induction sits arbitrary: s)
  case Nil
  then show ?case by simp
next
  case (Cons sit sits)
  have keys: "set (map fst gt') = set (map fst gt)"
    using assms(2) by (rule mset_eq_setD)
  have tv: "table_value gt' = table_value gt" "table_value p' = table_value p"
    and df: "defined_at gt' = defined_at gt" "defined_at p' = defined_at p"
    using table_value_cong [OF assms(1)] table_value_cong [OF assms(3)]
      defined_at_cong [OF assms(1)] defined_at_cong [OF assms(3)] by blast+
  have pre: "\<forall>u \<in> set (map fst gt). u \<in> set (map fst gt) \<and> defined_at p u sit"
    using Cons.prems by simp
  have pre': "\<forall>u \<in> set (map fst gt'). u \<in> set (map fst gt') \<and> defined_at p' u sit"
    using Cons.prems keys df by simp
  have same: "(\<forall>u \<in> set (map fst gt'). defined_at gt' u sit) = (\<forall>u \<in> set (map fst gt). defined_at gt u sit)"
    using keys df by simp
  have r: "pearsonr (map (\<lambda>u. table_value gt' u sit) (map fst gt'))
                    (map (\<lambda>u. table_value p' u sit) (map fst gt')) =
           pearsonr (map (\<lambda>u. table_value gt u sit) (map fst gt))
                    (map (\<lambda>u. table_value p u sit) (map fst gt))"
    unfolding tv by (rule pearsonr_permute [OF assms(2)])
  have IH: "correlation_loop rnd gt' p' s' sits = correlation_loop rnd gt p s' sits" for s'
    using Cons.IH Cons.prems by simp
  show ?case
    unfolding correlation_loop.simps collect_values_eq [OF pre] collect_values_eq [OF pre'] same
    by (simp add: exc_bind_def r IH del: map_map)
qed

lemma valid_record_cong:
  "set (map fst gt') = set (map fst gt) \<Longrightarrow> valid_record gt' r = valid_record gt r"
  by (simp add: valid_record_def checked_record_def)

lemmas scoring_defs =
  compute_primary_score_def exc_bind_def py_getitem_def pearsonr_def mean_def situations_def
  no_rounding_def

lemma primary_score_mean:
  assumes "load_predictions rnd gt (Inr sub) = Inr predictions"
    and "distinct (map fst sub)"
    and "complete_table gt"
    and "mset order = mset situations"
  shows "compute_primary_score rnd order gt predictions =
           Inr (mean_pearson rnd order gt predictions)"
proof -
  from assms(1) have len: "length sub = length gt" and v: "list_all (valid_record gt) sub"
    and p: "predictions = fold (store_record rnd) sub []"
    using load_predictions_Inr by blast+
  have keys: "set (map fst sub) = set (map fst gt)"
    using validated_keys [OF len v assms(2)] .
  have sits: "set order = set situations"
    using assms(4) by (rule mset_eq_setD)
  have "\<forall>sit \<in> set order. \<forall>u \<in> set (map fst gt).
          defined_at gt u sit \<and> defined_at predictions u sit"
    using complete_table_defined [OF assms(3)] predictions_defined [OF assms(2)] keys sits p
    by blast
  then have "correlation_loop rnd gt predictions (Finite 0) order =
      Inr (fold (\<lambda>sit acc. fl_add rnd acc (situation_correlation gt predictions sit)) order (Finite 0))"
    by (rule correlation_loop_eq)
  then show ?thesis
    by (simp add: compute_primary_score_def exc_bind_def mean_pearson_def fl_sum_map
        length_order [OF assms(4)])
qed

subsection \<open>A submission that repeats the ground truth\<close>

lemma four_codes_present:
  "four_codes r \<Longrightarrow> code \<in> set REQUIRED_SITUATION_CODES \<Longrightarrow> \<exists>v. map_of r code = Some v"
  using required_codes_present [of r code] by (simp add: four_codes_def)

lemma four_codes_complete:
  "list_all (\<lambda>r. four_codes (snd r)) t \<Longrightarrow> complete_table t"
  using four_codes_present
  by (fastforce simp: complete_table_def list_all_iff situations_def REQUIRED_SITUATION_CODES_def)

lemma copies_record_lookup:
  assumes "copies_record rnd scores r" and "map_of r code = Some x"
  shows "\<exists>v. map_of scores code = Some v \<and> is_number v \<and> py_float rnd v = Inr x"
proof -
  from assms(2) have "(code, x) \<in> set r" by (rule map_of_SomeD)
  with assms(1) show ?thesis
    by (fastforce simp: copies_record_def list_all_iff split: option.splits)
qed

lemma float_result:
  "is_number v \<Longrightarrow> py_float rnd v = Inr x \<Longrightarrow> fits_float v \<and> number_value rnd v = x"
  by (simp add: py_float_number split: if_splits)

lemma copies_record_valid:
  assumes "copies_record rnd scores r" and "four_codes r" and "p \<in> set (map fst gt)"
  shows "valid_record gt (p, scores)"
proof -
  have len: "length scores = 4"
    using assms(1,2) by (simp add: copies_record_def four_codes_def)
  have keys: "list_all (\<lambda>k. k \<in> set REQUIRED_SITUATION_CODES) (map fst scores)"
    using assms(1,2) by (simp add: copies_record_def four_codes_def list_all_iff)
  have num: "case map_of scores code of None \<Rightarrow> False | Some v \<Rightarrow> is_number v"
    and fit: "case map_of scores code of None \<Rightarrow> True | Some v \<Rightarrow> fits_float v"
    if "code \<in> set REQUIRED_SITUATION_CODES" for code
  proof -
    from four_codes_present [OF assms(2) that] obtain x where "map_of r code = Some x" by blast
    from copies_record_lookup [OF assms(1) this] obtain v where
      v: "map_of scores code = Some v" "is_number v" "py_float rnd v = Inr x" by blast
    with float_result [OF v(2,3)]
    show "case map_of scores code of None \<Rightarrow> False | Some v \<Rightarrow> is_number v"
      and "case map_of scores code of None \<Rightarrow> True | Some v \<Rightarrow> fits_float v"
      by simp_all
  qed
  show ?thesis
    using assms(3) len keys num fit
    by (simp add: valid_record_def checked_record_def list_all_iff)
qed

lemma copies_record_float:
  assumes "copies_record rnd scores r" and "four_codes r"
    and "code \<in> set REQUIRED_SITUATION_CODES"
  shows "map_of (float_record rnd scores) code = map_of r code"
proof -
  from four_codes_present [OF assms(2,3)] obtain x where x: "map_of r code = Some x" by blast
  from copies_record_lookup [OF assms(1) x] obtain v where
    v: "map_of scores code = Some v" "is_number v" "py_float rnd v = Inr x" by blast
  have "map_of (float_record rnd scores) code = Some (number_value rnd (the (map_of scores code)))"
    using assms(3) by (auto simp: float_record_def REQUIRED_SITUATION_CODES_def)
  then show ?thesis using float_result [OF v(2,3)] v(1) x by simp
qed

lemma copies_table_lookup:
  assumes "copies_table rnd sub gt" and "map_of gt p = Some r"
  shows "\<exists>scores. map_of sub p = Some scores \<and> copies_record rnd scores r"
proof -
  from assms(2) have "(p, r) \<in> set gt" by (rule map_of_SomeD)
  with assms(1) show ?thesis
    by (fastforce simp: copies_table_def list_all_iff split: option.splits)
qed

lemma copies_table_valid:
  assumes "copies_table rnd sub gt" and "list_all (\<lambda>r. four_codes (snd r)) gt"
  shows "list_all (valid_record gt) sub"
proof -
  have "valid_record gt s" if "s \<in> set sub" for s
  proof -
    obtain p scores where s: "s = (p, scores)" by (cases s)
    have d: "distinct (map fst sub)" using assms(1) by (simp add: copies_table_def)
    from that s have m: "map_of sub p = Some scores"
      using map_of_is_SomeI [OF d] by simp
    from that s assms(1) have pk: "p \<in> set (map fst gt)"
      by (force simp: copies_table_def)
    then obtain r where r: "map_of gt p = Some r"
      by (cases "map_of gt p") (auto simp: map_of_eq_None_iff)
    then have "(p, r) \<in> set gt" by (rule map_of_SomeD)
    with assms(2) have f: "four_codes r" by (auto simp: list_all_iff)
    from copies_table_lookup [OF assms(1) r] m have "copies_record rnd scores r" by simp
    then show ?thesis unfolding s using f pk by (rule copies_record_valid)
  qed
  then show ?thesis by (simp add: list_all_iff)
qed

lemma copies_table_loads:
  assumes "copies_table rnd sub gt" and "list_all (\<lambda>r. four_codes (snd r)) gt"
  shows "load_predictions rnd gt (Inr sub) = Inr (fold (store_record rnd) sub [])"
  using assms(1) copies_table_valid [OF assms]
  by (simp add: load_predictions_def load_loop_valid copies_table_def)

lemma copies_table_value:
  assumes "copies_table rnd sub gt" and "list_all (\<lambda>r. four_codes (snd r)) gt"
    and "p \<in> set (map fst gt)" and "code \<in> set REQUIRED_SITUATION_CODES"
  shows "table_value (fold (store_record rnd) sub []) p code = table_value gt p code"
proof -
  from assms(3) obtain r where r: "map_of gt p = Some r"
    by (cases "map_of gt p") (auto simp: map_of_eq_None_iff)
  then have "(p, r) \<in> set gt" by (rule map_of_SomeD)
  with assms(2) have f: "four_codes r" by (auto simp: list_all_iff)
  from copies_table_lookup [OF assms(1) r] obtain scores where
    sc: "map_of sub p = Some scores" "copies_record rnd scores r" by blast
  have d: "distinct (map fst sub)" using assms(1) by (simp add: copies_table_def)
  show ?thesis
    by (simp add: table_value_def map_of_predictions [OF d] sc(1) r
        copies_record_float [OF sc(2) f assms(4)])
qed

lemma pearsonr_constant:
  assumes "constant_vector xs"
  shows "pearsonr xs ys = NaN"
proof -
  have all: "\<forall>x \<in> set xs. x = hd xs"
    using assms by (simp add: constant_vector_def list_all_iff)
  then have "map (\<lambda>x. hd xs) xs = xs" by (simp add: map_idI)
  then have "sum_list xs = sum_list (map (\<lambda>x. hd xs) xs)" by simp
  also have "\<dots> = real (length xs) * hd xs" by (simp add: sum_list_triv)
  finally have "xs \<noteq> [] \<Longrightarrow> mean xs = hd xs" by (simp add: mean_def)
  with all have z: "(x - mean xs)\<^sup>2 = 0" if "x \<in> set xs" for x
    using that by (cases xs) auto
  have "sum_list (map (\<lambda>x. (x - mean xs)\<^sup>2) xs) = sum_list (map (\<lambda>x. 0) xs)"
    by (rule arg_cong [where f = sum_list], rule map_cong [OF refl]) (rule z)
  then have "sum_list (map (\<lambda>x. (x - mean xs)\<^sup>2) xs) = 0" by simp
  then show ?thesis by (simp add: pearsonr_def Let_def)
qed

lemma fl_sum_NaN: "NaN \<in> set xs \<Longrightarrow> fl_sum rnd xs = NaN"
proof -
  have absorb: "fold (\<lambda>x acc. fl_add rnd acc x) ys NaN = NaN" for ys
    by (induction ys) simp_all
  have "NaN \<in> set xs \<Longrightarrow> fold (\<lambda>x acc. fl_add rnd acc x) xs acc = NaN" for acc
  proof (induction xs arbitrary: acc)
    case Nil
    then show ?case by simp
  next
    case (Cons x xs)
    show ?case
    proof (cases "x = NaN")
      case True
      then have "fl_add rnd acc x = NaN" by (cases acc) simp_all
      then show ?thesis by (simp add: absorb)
    next
      case False
      with Cons show ?thesis by simp
    qed
  qed
  then show "NaN \<in> set xs \<Longrightarrow> fl_sum rnd xs = NaN" by (simp add: fl_sum_def)
qed

lemma fl_sum_ones:
  assumes "length xs = 4" and "\<forall>x \<in> set xs. x = Finite 1"
    and "list_all (\<lambda>x. rnd x = x) [1, 2, 3, 4]"
  shows "fl_div rnd (fl_sum rnd xs) 4 = Finite 1"
proof -
  from assms(1) obtain a b c d where xs: "xs = [a, b, c, d]"
    by (auto simp: length_Suc_conv numeral_eq_Suc)
  with assms(2) have "xs = [Finite 1, Finite 1, Finite 1, Finite 1]" by simp
  then show ?thesis using assms(3) by (simp add: fl_sum_def)
qed

section \<open>Properties of the rejections\<close>

lemma load_predictions_Inl:
  assumes "load_predictions rnd gt (Inr sub) = Inl e"
  shows "(length sub \<noteq> length gt \<and> e = Exception_args count_mismatch_message (length sub)) \<or>
         (length sub = length gt \<and>
          (\<exists>pre up scores post. sub = pre @ (up, scores) # post \<and>
             list_all (valid_record gt) pre \<and> \<not> valid_record gt (up, scores) \<and>
             process_record rnd gt (fold (store_record rnd) pre []) (Suc (length pre)) up scores = Inl e))"
proof (cases "length sub = length gt")
  case False
  with assms show ?thesis by (simp add: load_predictions_def)
next
  case True
  with assms have loop: "load_loop rnd gt 0 [] sub = Inl e"
    by (simp add: load_predictions_def)
  have "\<exists>r \<in> set sub. \<not> valid_record gt r"
  proof (rule ccontr)
    assume "\<not> (\<exists>r \<in> set sub. \<not> valid_record gt r)"
    then have "list_all (valid_record gt) sub" by (simp add: list_all_iff)
    with loop show False by (simp add: load_loop_valid)
  qed
  then obtain pre r post where s: "sub = pre @ r # post" "\<not> valid_record gt r"
    "\<forall>y \<in> set pre. \<not> \<not> valid_record gt y"
    using split_list_first_prop [of sub "\<lambda>r. \<not> valid_record gt r"] by blast
  obtain up scores where r: "r = (up, scores)" by (cases r)
  have pre: "list_all (valid_record gt) pre" using s(3) by (simp add: list_all_iff)
  have nv: "\<not> valid_record gt (up, scores)" using s(2) r by simp
  have "load_loop rnd gt 0 [] (pre @ (up, scores) # post) =
          process_record rnd gt (fold (store_record rnd) pre []) (Suc (0 + length pre)) up scores"
    using pre nv by (rule load_loop_first_invalid)
  then have "process_record rnd gt (fold (store_record rnd) pre []) (Suc (length pre)) up scores = Inl e"
    using s(1) r loop by simp
  with True s r pre show ?thesis by blast
qed

lemma suffix_unknown_profile: "suffix (record_suffix rc) (unknown_profile_message up rc)"
  unfolding unknown_profile_message_def by (intro suffix_appendI) simp

lemma suffix_field_count: "suffix (record_suffix rc) (field_count_message up rc)"
  unfolding field_count_message_def by (intro suffix_appendI) simp

lemma suffix_unknown_code: "suffix (record_suffix rc) (unknown_code_message code up rc)"
  unfolding unknown_code_message_def by (intro suffix_appendI) simp

lemma suffix_not_a_number: "suffix (record_suffix rc) (not_a_number_message code up rc)"
  unfolding not_a_number_message_def by (intro suffix_appendI) simp

lemma sublist_second: "sublist xs (a @ b @ c @ xs @ d)"
proof -
  have "a @ b @ c @ xs @ d = (a @ b @ c) @ xs @ d" by simp
  then show ?thesis by (simp only: sublist_appendI)
qed

lemma profile_in_unknown_profile: "sublist (repr_str up) (unknown_profile_message up rc)"
  unfolding unknown_profile_message_def by (rule sublist_appendI)

lemma profile_in_field_count: "sublist (repr_str up) (field_count_message up rc)"
  unfolding field_count_message_def by (rule sublist_appendI)

lemma profile_in_unknown_code: "sublist (repr_str up) (unknown_code_message code up rc)"
  unfolding unknown_code_message_def by (rule sublist_second)

lemma profile_in_not_a_number: "sublist (repr_str up) (not_a_number_message code up rc)"
  unfolding not_a_number_message_def by (rule sublist_second)

lemma code_in_unknown_code: "sublist (repr_str code) (unknown_code_message code up rc)"
  unfolding unknown_code_message_def by (rule sublist_appendI)

lemma code_in_not_a_number: "sublist (repr_str code) (not_a_number_message code up rc)"
  unfolding not_a_number_message_def by (rule sublist_appendI)

lemma number_in_record_suffix: "sublist (str_nat rc) (record_suffix rc)"
  unfolding record_suffix_def by (rule sublist_appendI)

lemmas example_defs =
  gt_example_def record_u1_def record_u2_def unknown_profile_submission_def
  short_record_submission_def string_score_record_def string_score_submission_def
  extra_field_record_def extra_field_submission_def integer_submission_def
  huge_int_submission_def

lemmas message_defs =
  unknown_profile_message_def field_count_message_def unknown_code_message_def
  not_a_number_message_def record_suffix_def repr_str_def str_nat.simps digit_char_def

lemma load_string_score:
  "load_predictions rnd gt_example (Inr string_score_submission) =
     Inl (Exception_msg (not_a_number_message ''it'' ''u2'' 2))"
  by (simp add: load_predictions_def process_record_cases first_not_number_def is_number_def
      first_overflow_def small_int_fits REQUIRED_SITUATION_CODES_def example_defs exc_bind_def
      numeral_2_eq_2)

lemma text_string_score:
  "not_a_number_message ''it'' ''u2'' 2 =
     ''Score for situtation code 'it' for user profile 'u2' must be a number. In case it is a number make sure that you remove the quotes.  Error occured at record nbr 2.''"
  by (simp add: message_defs)

lemma load_short_record:
  "load_predictions rnd gt_example (Inr short_record_submission) =
     Inl (Exception_msg (field_count_message ''u1'' 1))"
  by (simp add: load_predictions_def process_record_cases first_not_number_def is_number_def
      first_overflow_def small_int_fits REQUIRED_SITUATION_CODES_def example_defs exc_bind_def
      numeral_2_eq_2)

lemma load_extra_field:
  "load_predictions rnd gt_example (Inr extra_field_submission) =
     Inl (Exception_msg (field_count_message ''u1'' 1))"
  by (simp add: load_predictions_def process_record_cases first_not_number_def is_number_def
      first_overflow_def small_int_fits REQUIRED_SITUATION_CODES_def example_defs exc_bind_def
      numeral_2_eq_2)

text \<open>
  A record that passes the checks and holds an integer too large for a float ends the
  load there: the unknown profile of the record after it is never looked at.
\<close>

lemma load_huge_int:
  "load_predictions rnd gt_example (Inr huge_int_submission) = Inl OverflowError"
  by (simp add: load_predictions_def process_record_cases first_not_number_def is_number_def
      first_overflow_def float_overflow_def REQUIRED_SITUATION_CODES_def example_defs exc_bind_def)

lemma text_field_count:
  "field_count_message ''u1'' 1 =
     ''User profile 'u1' must contain exactly 4 key/value pairs where key=situation_code and value=score (Required situation codes: ('acc', 'it', 'bank', 'wait')). Error occured at record nbr 1.''"
  by (simp add: message_defs)

lemma text_unknown_profile:
  "unknown_profile_message ''u3'' 2 =
     ''User profile 'u3' does not exist in gt set. Error occured at record nbr 2.''"
  by (simp add: message_defs)

lemma text_count_mismatch:
  "exception_text (Exception_args count_mismatch_message 0) =
     Some ''('Number of user profiles in submission file not equal to number of user_profiles in gt set.', 0)''"
  by (simp add: count_mismatch_message_def message_defs)

section \<open>The claims\<close>

text \<open>
  C2. When \<open>load_predictions\<close> returns a predictions mapping for a parsed submission
  (a mapping, so its keys are distinct), the keys of the predictions are exactly the keys
  of the ground truth: the same set, without repetition, and as many entries.
\<close>

theorem predictions_keys_are_gt_keys:
  assumes "load_predictions rnd gt (Inr sub) = Inr predictions" and "distinct (map fst sub)"
  shows "set (map fst predictions) = set (map fst gt) \<and>
         distinct (map fst predictions) \<and> length predictions = length gt"
proof -
  from assms(1) have len: "length sub = length gt" and v: "list_all (valid_record gt) sub"
    and p: "predictions = fold (store_record rnd) sub []"
    using load_predictions_Inr by blast+
  have k: "map fst predictions = map fst sub"
    using store_record_keys [OF assms(2), of "[]"] by (simp add: p)
  then have "length predictions = length sub"
    using length_map [of fst predictions] by simp
  with k show ?thesis
    using validated_keys [OF len v assms(2)] len assms(2) by simp
qed

theorem predictions_keys_are_gt_keys_witness:
  "load_predictions no_rounding gt_example (Inr submission_example) = Inr predictions_example \<and>
   distinct (map fst submission_example) \<and>
   set (map fst predictions_example) = set (map fst gt_example) \<and>
   distinct (map fst predictions_example) \<and> length predictions_example = length gt_example"
proof -
  have d: "distinct (map fst submission_example)"
    by (simp add: submission_example_def)
  show ?thesis
    using predictions_keys_are_gt_keys [OF load_submission_example d] load_submission_example d
    by simp
qed

text \<open>
  C5. A parsed submission whose number of profiles differs from that of the ground truth
  is rejected with the count-mismatch exception, whatever its records hold: no record is
  looked at before.
\<close>

theorem count_mismatch_rejected:
  "length sub \<noteq> length gt \<Longrightarrow>
   load_predictions rnd gt (Inr sub) = Inl (Exception_args count_mismatch_message (length sub))"
  by (simp add: load_predictions_def)

theorem count_mismatch_rejected_witness:
  "length [(''u9'', [(''acc'', JString ''x'')])] \<noteq> length gt_example \<and>
   load_predictions no_rounding gt_example (Inr [(''u9'', [(''acc'', JString ''x'')])]) =
     Inl (Exception_args count_mismatch_message 1)"
  using count_mismatch_rejected [of "[(''u9'', [(''acc'', JString ''x'')])]" gt_example]
  by (simp add: gt_example_def)

text \<open>
  C9. A record with four fields, all of them named by a required situation code, and
  with distinct keys has all four codes as keys: the four lookups succeed, and neither
  the validation nor the coercion of a field ends in a missing-key error.
\<close>

theorem required_lookups_succeed:
  assumes "length scores = 4"
    and "check_situation_codes rc up (map fst scores) = Inr ()"
    and "distinct (map fst scores)"
  shows "set (map fst scores) = set REQUIRED_SITUATION_CODES \<and>
         (\<forall>code \<in> set REQUIRED_SITUATION_CODES.
            (\<exists>v. py_getitem scores code = Inr v) \<and>
            (\<forall>k. validate_item rc up scores code \<noteq> Inl (KeyError k)) \<and>
            (\<forall>k. float_item rnd scores code \<noteq> Inl (KeyError k))) \<and>
         (\<forall>k. process_record rnd gt predictions rc up scores \<noteq> Inl (KeyError k))"
proof -
  have ok: "list_all (\<lambda>k. k \<in> set REQUIRED_SITUATION_CODES) (map fst scores)"
    using assms(2)
    by (auto simp: check_situation_codes_find find_None_iff list_all_iff split: option.splits)
  have present: "\<exists>v. map_of scores code = Some v" if "code \<in> set REQUIRED_SITUATION_CODES" for code
    using required_codes_present [OF assms(1) ok assms(3) that] .
  have keys: "set (map fst scores) = set REQUIRED_SITUATION_CODES"
  proof
    show "set (map fst scores) \<subseteq> set REQUIRED_SITUATION_CODES"
      using ok by (auto simp: list_all_iff)
    show "set REQUIRED_SITUATION_CODES \<subseteq> set (map fst scores)"
    proof
      fix code assume "code \<in> set REQUIRED_SITUATION_CODES"
      then obtain v where "map_of scores code = Some v" using present by blast
      then have "(code, v) \<in> set scores" by (rule map_of_SomeD)
      then show "code \<in> set (map fst scores)" by force
    qed
  qed
  have items: "(\<exists>v. py_getitem scores code = Inr v) \<and>
            (\<forall>k. validate_item rc up scores code \<noteq> Inl (KeyError k)) \<and>
            (\<forall>k. float_item rnd scores code \<noteq> Inl (KeyError k))"
    if "code \<in> set REQUIRED_SITUATION_CODES" for code
  proof -
    from present [OF that] obtain v where v: "map_of scores code = Some v" by blast
    have "float_item rnd scores code \<noteq> Inl (KeyError k)" for k
      using v by (cases v) (simp_all add: float_item_def py_getitem_def exc_bind_def)
    then show ?thesis
      using v by (simp add: py_getitem_def validate_item_cases)
  qed
  have "process_record rnd gt predictions rc up scores \<noteq> Inl (KeyError k)" for k
  proof -
    have "\<forall>code \<in> set REQUIRED_SITUATION_CODES. map_of scores code \<noteq> None"
      using present by auto
    then show ?thesis
      by (auto simp: process_record_cases first_not_number_def
          split: option.splits dest!: find_Some_holds)
  qed
  with keys items show ?thesis by blast
qed

theorem required_lookups_succeed_witness:
  "length [(''wait'', JInt 25), (''acc'', JString ''22.4''), (''it'', JInt 5), (''bank'', JNull)] = 4 \<and>
   check_situation_codes 1 ''u2''
     (map fst [(''wait'', JInt 25), (''acc'', JString ''22.4''), (''it'', JInt 5), (''bank'', JNull)]) = Inr () \<and>
   distinct (map fst [(''wait'', JInt 25), (''acc'', JString ''22.4''), (''it'', JInt 5), (''bank'', JNull)]) \<and>
   py_getitem [(''wait'', JInt 25), (''acc'', JString ''22.4''), (''it'', JInt 5), (''bank'', JNull)] ''bank'' = Inr JNull \<and>
   process_record no_rounding gt_example [] 1 ''u2''
     [(''wait'', JInt 25), (''acc'', JString ''22.4''), (''it'', JInt 5), (''bank'', JNull)] \<noteq> Inl (KeyError ''acc'')"
proof -
  let ?r = "[(''wait'', JInt 25), (''acc'', JString ''22.4''), (''it'', JInt 5), (''bank'', JNull)]"
  have a: "length ?r = 4" by simp
  have b: "check_situation_codes 1 ''u2'' (map fst ?r) = Inr ()"
    by (simp add: REQUIRED_SITUATION_CODES_def)
  have c: "distinct (map fst ?r)" by simp
  have d: "py_getitem ?r ''bank'' = Inr JNull" by (simp add: py_getitem_def)
  show ?thesis
    using required_lookups_succeed
      [OF a b c, where gt = gt_example and predictions = "[]" and rnd = no_rounding] a b c d by blast
qed

text \<open>
  C10. The result of \<open>_evaluate\<close> is the same for any two contexts, and the context
  comes back as it was given.
\<close>

theorem evaluate_ignores_context:
  "snd (evaluate rnd order read_json gt client_payload c1) =
     snd (evaluate rnd order read_json gt client_payload c2) \<and>
   fst (evaluate rnd order read_json gt client_payload c1) = c1"
  by (simp add: evaluate_def)

text \<open>
  C1. For a validated predictions mapping (the result of \<open>load_predictions\<close> on a parsed
  submission) and a ground truth with a value for every code, \<open>compute_primary_score\<close>
  returns the mean of the four Pearson coefficients: each is taken between the
  ground-truth values and the predicted values listed in the ground truth's profile
  order, and their float sum, taken in the order in which the four codes are iterated, is
  divided by 4.
\<close>

theorem primary_score_is_mean_pearson:
  assumes "load_predictions rnd gt (Inr sub) = Inr predictions"
    and "distinct (map fst sub)"
    and "complete_table gt"
    and "mset order = mset situations"
  shows "compute_primary_score rnd order gt predictions =
           Inr (fl_div rnd
                 (fl_sum rnd
                   (map (\<lambda>code.
                          pearsonr (map (\<lambda>profile. table_value gt profile code) (map fst gt))
                                   (map (\<lambda>profile. table_value predictions profile code) (map fst gt)))
                        order)) 4)"
  using primary_score_mean [OF assms]
  by (simp add: mean_pearson_def situation_correlation_def [abs_def])

theorem primary_score_is_mean_pearson_witness:
  "load_predictions no_rounding gt_example (Inr submission_example) = Inr predictions_example \<and>
   distinct (map fst submission_example) \<and> complete_table gt_example \<and>
   mset [''wait'', ''acc'', ''bank'', ''it''] = mset situations \<and>
   compute_primary_score no_rounding [''wait'', ''acc'', ''bank'', ''it''] gt_example
     predictions_example = Inr (Finite (1 / 2))"
proof -
  have d: "distinct (map fst submission_example)"
    by (simp add: submission_example_def)
  have c: "complete_table gt_example"
    by (simp add: complete_table_def gt_example_def situations_def)
  have m: "mset [''wait'', ''acc'', ''bank'', ''it''] = mset situations"
    by (simp add: situations_def)
  have v: "fl_div no_rounding
             (fl_sum no_rounding
               (map (\<lambda>code.
                      pearsonr (map (\<lambda>profile. table_value gt_example profile code) (map fst gt_example))
                               (map (\<lambda>profile. table_value predictions_example profile code)
                                  (map fst gt_example)))
                    [''wait'', ''acc'', ''bank'', ''it''])) 4 = Finite (1 / 2)"
    by (simp add: fl_sum_def table_value_def pearsonr_def mean_def no_rounding_def
        gt_example_def predictions_example_def)
  show ?thesis
    using primary_score_is_mean_pearson [OF load_submission_example d c m]
      load_submission_example d c m v
    by simp
qed

text \<open>
  C4, as the code has it. Let the submission repeat the ground truth: the same profiles,
  in each record the same fields, every value an int or a float that \<open>float\<close> turns into
  the ground-truth value; and let every ground-truth record have exactly the four codes.
  Then the submission is accepted and the secondary score is 0; the coefficient of a code
  is 1 when the ground-truth values of that code are not all equal, and not a number when
  they are. If no code has a constant column, the primary score is 1 (the float sums of
  1 four times and the division of 4 by 4 being exact); otherwise it is not a number.
\<close>

theorem identical_submission_scores:
  assumes "copies_table rnd sub gt"
    and "list_all (\<lambda>r. four_codes (snd r)) gt"
    and "mset order = mset situations"
  shows "\<exists>predictions.
           load_predictions rnd gt (Inr sub) = Inr predictions \<and>
           compute_secondary_score predictions = 0 \<and>
           list_all (\<lambda>code. situation_correlation gt predictions code =
                       (if constant_vector (gt_column gt code) then NaN else Finite 1))
             situations \<and>
           (if list_all (\<lambda>code. \<not> constant_vector (gt_column gt code)) situations
            then list_all (\<lambda>x. rnd x = x) [1, 2, 3, 4] \<longrightarrow>
                 compute_primary_score rnd order gt predictions = Inr (Finite 1)
            else compute_primary_score rnd order gt predictions = Inr NaN)"
proof -
  let ?p = "fold (store_record rnd) sub []"
  have load: "load_predictions rnd gt (Inr sub) = Inr ?p"
    using assms(1,2) by (rule copies_table_loads)
  have coef: "situation_correlation gt ?p code =
                (if constant_vector (gt_column gt code) then NaN else Finite 1)"
    if "code \<in> set situations" for code
  proof -
    have c: "code \<in> set REQUIRED_SITUATION_CODES"
      using that by (simp add: situations_def REQUIRED_SITUATION_CODES_def)
    have eq: "map (\<lambda>p. table_value ?p p code) (map fst gt) = gt_column gt code"
      unfolding gt_column_def
    proof (rule map_cong [OF refl])
      fix p assume "p \<in> set (map fst gt)"
      then show "table_value ?p p code = table_value gt p code"
        using copies_table_value [OF assms(1,2) _ c] by blast
    qed
    have "situation_correlation gt ?p code = pearsonr (gt_column gt code) (gt_column gt code)"
      unfolding situation_correlation_def eq by (simp only: gt_column_def)
    then show ?thesis
      by (simp add: pearsonr_constant pearsonr_self)
  qed
  have d: "distinct (map fst sub)"
    using assms(1) by (simp add: copies_table_def)
  have score: "compute_primary_score rnd order gt ?p = Inr (mean_pearson rnd order gt ?p)"
    using primary_score_mean [OF load d four_codes_complete [OF assms(2)] assms(3)] .
  have sits: "set order = set situations"
    using assms(3) by (rule mset_eq_setD)
  have one: "compute_primary_score rnd order gt ?p = Inr (Finite 1)"
    if "list_all (\<lambda>code. \<not> constant_vector (gt_column gt code)) situations"
      and "list_all (\<lambda>x. rnd x = x) [1, 2, 3, 4]"
  proof -
    have "\<forall>x \<in> set (map (situation_correlation gt ?p) order). x = Finite 1"
      using coef that(1) sits by (auto simp: list_all_iff)
    then have "mean_pearson rnd order gt ?p = Finite 1"
      unfolding mean_pearson_def
      using length_order [OF assms(3)] that(2) by (intro fl_sum_ones) simp_all
    with score show ?thesis by simp
  qed
  have nan: "compute_primary_score rnd order gt ?p = Inr NaN"
    if "\<not> list_all (\<lambda>code. \<not> constant_vector (gt_column gt code)) situations"
  proof -
    from that obtain code where c: "code \<in> set situations" "constant_vector (gt_column gt code)"
      by (auto simp: list_all_iff)
    then have "situation_correlation gt ?p code = NaN" by (simp add: coef)
    with c(1) sits have "NaN \<in> set (map (situation_correlation gt ?p) order)"
      by force
    then have "mean_pearson rnd order gt ?p = NaN"
      by (simp add: mean_pearson_def fl_sum_NaN)
    with score show ?thesis by simp
  qed
  have "compute_secondary_score ?p = 0" by (simp add: compute_secondary_score_def)
  moreover have "list_all (\<lambda>code. situation_correlation gt ?p code =
                       (if constant_vector (gt_column gt code) then NaN else Finite 1)) situations"
    using coef by (simp add: list_all_iff)
  ultimately show ?thesis
    using load one nan by (intro exI [of _ ?p]) auto
qed

theorem identical_submission_scores_witness:
  "copies_table no_rounding integer_submission gt_example \<and>
   list_all (\<lambda>r. four_codes (snd r)) gt_example \<and>
   mset [''it'', ''wait'', ''acc'', ''bank''] = mset situations \<and>
   list_all (\<lambda>code. \<not> constant_vector (gt_column gt_example code)) situations \<and>
   list_all (\<lambda>x. no_rounding x = x) [1, 2, 3, 4] \<and>
   load_predictions no_rounding gt_example (Inr integer_submission) = Inr (rev gt_example) \<and>
   compute_primary_score no_rounding [''it'', ''wait'', ''acc'', ''bank''] gt_example
     (rev gt_example) = Inr (Finite 1)"
proof -
  have a: "copies_table no_rounding integer_submission gt_example"
    by (auto simp: copies_table_def copies_record_def is_number_def small_int_fits
        no_rounding_def example_defs)
  have b: "list_all (\<lambda>r. four_codes (snd r)) gt_example"
    by (simp add: gt_example_def four_codes_def REQUIRED_SITUATION_CODES_def)
  have c: "mset [''it'', ''wait'', ''acc'', ''bank''] = mset situations"
    by (simp add: situations_def)
  have d: "list_all (\<lambda>code. \<not> constant_vector (gt_column gt_example code)) situations"
    by (simp add: gt_example_def situations_def constant_vector_def gt_column_def table_value_def)
  have e: "list_all (\<lambda>x. no_rounding x = x) [1, 2, 3, 4]"
    by (simp add: no_rounding_def)
  have l: "load_predictions no_rounding gt_example (Inr integer_submission) = Inr (rev gt_example)"
    by (simp add: validation_defs example_defs)
  from identical_submission_scores [OF a b c] l d e
  have "compute_primary_score no_rounding [''it'', ''wait'', ''acc'', ''bank''] gt_example
     (rev gt_example) = Inr (Finite 1)"
    by auto
  then show ?thesis
    using a b c d e l by (intro conjI)
qed

text \<open>
  C4 as stated fails: a ground truth of three profiles whose \<open>acc\<close> values are all 10,
  repeated value for value by the submission, is accepted, its \<open>acc\<close> coefficient is not a
  number and neither is the primary score.
\<close>

theorem identical_submission_not_one:
  "copies_table no_rounding (json_of_table gt_constant_example) gt_constant_example \<and>
   load_predictions no_rounding gt_constant_example (Inr (json_of_table gt_constant_example)) =
     Inr gt_constant_example \<and>
   situation_correlation gt_constant_example gt_constant_example ''acc'' = NaN \<and>
   compute_primary_score no_rounding situations gt_constant_example gt_constant_example = Inr NaN"
  by (simp add: validation_defs scoring_defs gt_constant_example_def json_of_table_def
      json_record_def situation_correlation_def table_value_def copies_table_def
      copies_record_def is_number_def)

text \<open>
  C8. For a validated submission, listing the profiles of the ground truth and those of
  the submission in another order leaves the submission valid and the primary score
  unchanged.
\<close>

theorem primary_score_permutation_invariant:
  assumes "load_predictions rnd gt (Inr sub) = Inr predictions"
    and "distinct (map fst gt)" and "distinct (map fst sub)"
    and "mset gt' = mset gt" and "mset sub' = mset sub"
    and "mset order = mset situations"
  shows "\<exists>predictions'. load_predictions rnd gt' (Inr sub') = Inr predictions' \<and>
           compute_primary_score rnd order gt' predictions' =
           compute_primary_score rnd order gt predictions"
proof -
  from assms(1) have len: "length sub = length gt" and v: "list_all (valid_record gt) sub"
    and p: "predictions = fold (store_record rnd) sub []"
    using load_predictions_Inr by blast+
  have kgt: "mset (map fst gt') = mset (map fst gt)"
    using arg_cong [OF assms(4), of "image_mset fst"] by simp
  have ksub: "mset (map fst sub') = mset (map fst sub)"
    using arg_cong [OF assms(5), of "image_mset fst"] by simp
  have dgt: "distinct (map fst gt')" using mset_eq_imp_distinct_iff [OF kgt] assms(2) by simp
  have dsub: "distinct (map fst sub')" using mset_eq_imp_distinct_iff [OF ksub] assms(3) by simp
  have sgt: "set gt' = set gt" using assms(4) by (rule mset_eq_setD)
  have ssub: "set sub' = set sub" using assms(5) by (rule mset_eq_setD)
  have keys': "set (map fst gt') = set (map fst gt)" using kgt by (rule mset_eq_setD)
  have mgt: "map_of gt' = map_of gt"
    using map_of_inject_set [OF dgt assms(2)] sgt by simp
  have msub: "map_of sub' = map_of sub"
    using map_of_inject_set [OF dsub assms(3)] ssub by simp
  let ?p' = "fold (store_record rnd) sub' []"
  have v': "list_all (valid_record gt') sub'"
    using v ssub valid_record_cong [OF keys'] by (simp add: list_all_iff)
  have len': "length sub' = length gt'"
    using len mset_eq_length [OF assms(4)] mset_eq_length [OF assms(5)] by simp
  have load': "load_predictions rnd gt' (Inr sub') = Inr ?p'"
    using len' by (simp add: load_predictions_def load_loop_valid [OF v'])
  have mp: "map_of ?p' = map_of predictions"
    by (simp add: fun_eq_iff p map_of_predictions [OF dsub] map_of_predictions [OF assms(3)] msub)
  have keys: "set (map fst sub) = set (map fst gt)"
    using validated_keys [OF len v assms(3)] .
  have "set order = set situations" using assms(6) by (rule mset_eq_setD)
  then have "\<forall>sit \<in> set order. \<forall>u \<in> set (map fst gt). defined_at predictions u sit"
    using predictions_defined [OF assms(3)] keys p by blast
  then have "correlation_loop rnd gt' ?p' (Finite 0) order = correlation_loop rnd gt predictions (Finite 0) order"
    by (rule correlation_loop_cong [OF mgt kgt mp])
  then have "compute_primary_score rnd order gt' ?p' = compute_primary_score rnd order gt predictions"
    by (simp add: compute_primary_score_def)
  with load' show ?thesis by blast
qed

theorem primary_score_permutation_invariant_witness:
  "load_predictions no_rounding gt_example (Inr submission_example) = Inr predictions_example \<and>
   distinct (map fst gt_example) \<and> distinct (map fst submission_example) \<and>
   mset (rev gt_example) = mset gt_example \<and>
   mset (rev submission_example) = mset submission_example \<and>
   mset [''bank'', ''it'', ''wait'', ''acc''] = mset situations \<and>
   load_predictions no_rounding (rev gt_example) (Inr (rev submission_example)) = Inr (rev predictions_example) \<and>
   compute_primary_score no_rounding [''bank'', ''it'', ''wait'', ''acc''] (rev gt_example) (rev predictions_example) =
     compute_primary_score no_rounding [''bank'', ''it'', ''wait'', ''acc''] gt_example predictions_example"
proof -
  have a: "distinct (map fst gt_example)" by (simp add: gt_example_def)
  have b: "distinct (map fst submission_example)" by (simp add: submission_example_def)
  have c: "mset (rev gt_example) = mset gt_example" by simp
  have d: "mset (rev submission_example) = mset submission_example" by simp
  have e: "mset [''bank'', ''it'', ''wait'', ''acc''] = mset situations"
    by (simp add: situations_def)
  have l: "load_predictions no_rounding (rev gt_example) (Inr (rev submission_example)) = Inr (rev predictions_example)"
    by (simp add: validation_defs gt_example_def submission_example_def predictions_example_def)
  show ?thesis
    using primary_score_permutation_invariant [OF load_submission_example a b c d e]
      load_submission_example a b c d e l
    by auto
qed

text \<open>
  C3, as the code has it. A load of a parsed submission (whose records are mappings, so
  with distinct keys) that fails ends in one of three ways. The count-mismatch exception
  carries the message and the number of submitted profiles, and names no record. Otherwise
  the records before some record are all valid and that record is the first to fail. If it
  fails a check of the validation, the message of the rejection ends with the sentence
  that gives the 1-based index of that record, contains the quoted profile identifier
  and, when the profile is known and the record has four fields, contains the quoted
  situation code the rejection is about. If it passes the checks, one of its integers is
  too large for a float and the load ends with the interpreter's OverflowError, which is
  no rejection of the validation and has no such text.
\<close>

theorem rejection_message_contents:
  assumes "load_predictions rnd gt (Inr sub) = Inl e"
    and "list_all (\<lambda>r. distinct (map fst (snd r))) sub"
  shows "(length sub \<noteq> length gt \<and> e = Exception_args count_mismatch_message (length sub)) \<or>
         (\<exists>pre up scores post.
            sub = pre @ (up, scores) # post \<and> list_all (valid_record gt) pre \<and>
            (if checked_record gt (up, scores)
             then e = OverflowError \<and> first_overflow scores \<noteq> None
             else (\<exists>m. e = Exception_msg m \<and>
                     suffix (record_suffix (Suc (length pre))) m \<and>
                     sublist (repr_str up) m \<and>
                     (up \<in> set (map fst gt) \<and> length scores = 4 \<longrightarrow>
                        (\<exists>code. code_at_fault scores = Some code \<and>
                                sublist (repr_str code) m)))))"
proof -
  from load_predictions_Inl [OF assms(1)]
  consider (count) "length sub \<noteq> length gt" "e = Exception_args count_mismatch_message (length sub)"
    | (rec) pre up scores post where "sub = pre @ (up, scores) # post"
        "list_all (valid_record gt) pre" "\<not> valid_record gt (up, scores)"
        "process_record rnd gt (fold (store_record rnd) pre []) (Suc (length pre)) up scores = Inl e"
    by blast
  then show ?thesis
  proof cases
    case count
    then show ?thesis by simp
  next
    case rec
    let ?rc = "Suc (length pre)"
    have d: "distinct (map fst scores)"
      using assms(2) rec(1) by simp
    have "if checked_record gt (up, scores)
          then e = OverflowError \<and> first_overflow scores \<noteq> None
          else (\<exists>m. e = Exception_msg m \<and> suffix (record_suffix ?rc) m \<and>
                  sublist (repr_str up) m \<and>
                  (up \<in> set (map fst gt) \<and> length scores = 4 \<longrightarrow>
                     (\<exists>code. code_at_fault scores = Some code \<and> sublist (repr_str code) m)))"
    proof (cases "checked_record gt (up, scores)")
      case True
      with rec(3) have o: "first_overflow scores \<noteq> None"
        by (simp add: valid_record_no_overflow)
      with True rec(4) show ?thesis
        by (auto simp: process_record_floats)
    next
      case nc: False
      have "\<exists>m. e = Exception_msg m \<and> suffix (record_suffix ?rc) m \<and> sublist (repr_str up) m \<and>
            (up \<in> set (map fst gt) \<and> length scores = 4 \<longrightarrow>
               (\<exists>code. code_at_fault scores = Some code \<and> sublist (repr_str code) m))"
      proof (cases "up \<in> set (map fst gt) \<and> length scores = 4")
        case False
        then show ?thesis
          using rec(4)
          by (auto simp: process_record_cases suffix_unknown_profile suffix_field_count
              profile_in_unknown_profile profile_in_field_count split: if_splits)
      next
        case True
        show ?thesis
        proof (cases "find (\<lambda>k. k \<notin> set REQUIRED_SITUATION_CODES) (map fst scores)")
          case (Some code)
          then show ?thesis
            using rec(4) True
            by (auto simp: process_record_cases code_at_fault_def suffix_unknown_code
                profile_in_unknown_code code_in_unknown_code)
        next
          case None
          then have ok: "list_all (\<lambda>k. k \<in> set REQUIRED_SITUATION_CODES) (map fst scores)"
            by (auto simp: find_None_iff list_all_iff)
          from nc True None obtain code where f: "first_not_number scores = Some code"
            by (auto simp: checked_record_iff)
          then have "code \<in> set REQUIRED_SITUATION_CODES"
            by (auto simp: first_not_number_def dest: find_Some_holds)
          then obtain v where "map_of scores code = Some v"
            using required_codes_present [OF _ ok d] True by blast
          then show ?thesis
            using rec(4) True None f
            by (auto simp: process_record_cases code_at_fault_def suffix_not_a_number
                profile_in_not_a_number code_in_not_a_number)
        qed
      qed
      with nc show ?thesis by simp
    qed
    with rec(1,2) show ?thesis by blast
  qed
qed

theorem rejection_message_contents_witness:
  "load_predictions no_rounding gt_example (Inr string_score_submission) =
     Inl (Exception_msg (not_a_number_message ''it'' ''u2'' 2)) \<and>
   list_all (\<lambda>r. distinct (map fst (snd r))) string_score_submission \<and>
   not_a_number_message ''it'' ''u2'' 2 =
     ''Score for situtation code 'it' for user profile 'u2' must be a number. In case it is a number make sure that you remove the quotes.  Error occured at record nbr 2.'' \<and>
   (\<exists>pre up scores post.
      string_score_submission = pre @ (up, scores) # post \<and>
      list_all (valid_record gt_example) pre \<and>
      suffix (record_suffix (Suc (length pre))) (not_a_number_message ''it'' ''u2'' 2) \<and>
      sublist (repr_str up) (not_a_number_message ''it'' ''u2'' 2))"
proof -
  have l: "load_predictions no_rounding gt_example (Inr string_score_submission) =
     Inl (Exception_msg (not_a_number_message ''it'' ''u2'' 2))"
    by (rule load_string_score)
  have d: "list_all (\<lambda>r. distinct (map fst (snd r))) string_score_submission"
    by (simp add: example_defs)
  have n: "length string_score_submission = length gt_example"
    by (simp add: example_defs)
  from rejection_message_contents [OF l d] n obtain pre up scores post where
    s: "string_score_submission = pre @ (up, scores) # post"
      "list_all (valid_record gt_example) pre"
    and c: "if checked_record gt_example (up, scores)
       then Exception_msg (not_a_number_message ''it'' ''u2'' 2) = OverflowError \<and>
            first_overflow scores \<noteq> None
       else (\<exists>m. Exception_msg (not_a_number_message ''it'' ''u2'' 2) = Exception_msg m \<and>
               suffix (record_suffix (Suc (length pre))) m \<and> sublist (repr_str up) m \<and>
               (up \<in> set (map fst gt_example) \<and> length scores = 4 \<longrightarrow>
                  (\<exists>code. code_at_fault scores = Some code \<and> sublist (repr_str code) m)))"
    by blast
  from c have "suffix (record_suffix (Suc (length pre))) (not_a_number_message ''it'' ''u2'' 2) \<and>
      sublist (repr_str up) (not_a_number_message ''it'' ''u2'' 2)"
    by (auto split: if_splits)
  with s have ex: "\<exists>pre up scores post.
      string_score_submission = pre @ (up, scores) # post \<and>
      list_all (valid_record gt_example) pre \<and>
      suffix (record_suffix (Suc (length pre))) (not_a_number_message ''it'' ''u2'' 2) \<and>
      sublist (repr_str up) (not_a_number_message ''it'' ''u2'' 2)"
    by blast
  show ?thesis
    by (rule conjI [OF l conjI [OF d conjI [OF text_string_score ex]]])
qed

text \<open>
  C3 as stated fails for the count-mismatch rejection: for an empty submission the text of
  the exception holds the count 0 and no record number.
\<close>

theorem count_mismatch_names_no_record:
  "load_predictions no_rounding gt_example (Inr []) = Inl (Exception_args count_mismatch_message 0) \<and>
   exception_text (Exception_args count_mismatch_message 0) =
     Some ''('Number of user profiles in submission file not equal to number of user_profiles in gt set.', 0)'' \<and>
   \<not> sublist ''record nbr''
     ''('Number of user profiles in submission file not equal to number of user_profiles in gt set.', 0)''"
proof -
  have "load_predictions no_rounding gt_example (Inr []) = Inl (Exception_args count_mismatch_message 0)"
    by (simp add: load_predictions_def gt_example_def)
  moreover have "\<not> sublist ''record nbr''
     ''('Number of user profiles in submission file not equal to number of user_profiles in gt set.', 0)''"
    by code_simp
  ultimately show ?thesis using text_count_mismatch by simp
qed

text \<open>
  C6, as the code has it. A parsed submission with a profile that the ground truth does
  not have never loads. When the count check passes and every record before that profile
  is valid (it passes the checks and its numbers can be converted to floats), the
  rejection is the unknown-profile error with the 1-based index of that profile's record.
\<close>

theorem unknown_profile_rejected:
  assumes "up \<in> set (map fst sub)" and "up \<notin> set (map fst gt)"
  shows "(\<exists>e. load_predictions rnd gt (Inr sub) = Inl e) \<and>
         (\<forall>pre scores post.
            length sub = length gt \<and> sub = pre @ (up, scores) # post \<and>
            list_all (valid_record gt) pre \<longrightarrow>
            load_predictions rnd gt (Inr sub) =
              Inl (Exception_msg (unknown_profile_message up (Suc (length pre)))))"
proof
  show "\<exists>e. load_predictions rnd gt (Inr sub) = Inl e"
  proof (cases "load_predictions rnd gt (Inr sub)")
    case (Inl e)
    then show ?thesis by blast
  next
    case (Inr p)
    then have "list_all (valid_record gt) sub" using load_predictions_Inr by blast
    with assms show ?thesis
      by (auto simp: list_all_iff valid_record_def checked_record_def)
  qed
next
  show "\<forall>pre scores post.
            length sub = length gt \<and> sub = pre @ (up, scores) # post \<and>
            list_all (valid_record gt) pre \<longrightarrow>
            load_predictions rnd gt (Inr sub) =
              Inl (Exception_msg (unknown_profile_message up (Suc (length pre))))"
  proof (intro allI impI, elim conjE)
    fix pre scores post
    assume len: "length sub = length gt" and s: "sub = pre @ (up, scores) # post"
      and pre: "list_all (valid_record gt) pre"
    have nv: "\<not> valid_record gt (up, scores)"
      using assms(2) by (simp add: valid_record_def checked_record_def)
    have "load_loop rnd gt 0 [] sub =
            process_record rnd gt (fold (store_record rnd) pre []) (Suc (0 + length pre)) up scores"
      unfolding s using pre nv by (rule load_loop_first_invalid)
    then show "load_predictions rnd gt (Inr sub) =
              Inl (Exception_msg (unknown_profile_message up (Suc (length pre))))"
      using len assms(2) by (simp add: load_predictions_def process_record_cases)
  qed
qed

theorem unknown_profile_rejected_witness:
  "''u3'' \<in> set (map fst unknown_profile_submission) \<and> ''u3'' \<notin> set (map fst gt_example) \<and>
   length unknown_profile_submission = length gt_example \<and>
   unknown_profile_submission = [(''u1'', record_u1)] @ (''u3'', record_u2) # [] \<and>
   list_all (valid_record gt_example) [(''u1'', record_u1)] \<and>
   load_predictions no_rounding gt_example (Inr unknown_profile_submission) =
     Inl (Exception_msg ''User profile 'u3' does not exist in gt set. Error occured at record nbr 2.'')"
proof -
  have a: "''u3'' \<in> set (map fst unknown_profile_submission)" by (simp add: example_defs)
  have b: "''u3'' \<notin> set (map fst gt_example)" by (simp add: example_defs)
  have c: "length unknown_profile_submission = length gt_example" by (simp add: example_defs)
  have d: "unknown_profile_submission = [(''u1'', record_u1)] @ (''u3'', record_u2) # []"
    by (simp add: example_defs)
  have e: "list_all (valid_record gt_example) [(''u1'', record_u1)]"
    by (simp add: valid_record_def checked_record_def is_number_def small_int_fits
        REQUIRED_SITUATION_CODES_def example_defs)
  from unknown_profile_rejected [OF a b] c d e
  have "load_predictions no_rounding gt_example (Inr unknown_profile_submission) =
     Inl (Exception_msg (unknown_profile_message ''u3'' (Suc (length [(''u1'', record_u1)]))))"
    by blast
  then show ?thesis using a b c d e text_unknown_profile by (simp add: numeral_2_eq_2)
qed

text \<open>
  C6 as stated fails: with as many profiles as the ground truth and the unknown profile
  \<open>u3\<close> in second place, a first record of three fields is rejected for its field count,
  and \<open>u3\<close> is never looked at.
\<close>

theorem unknown_profile_not_reported:
  "''u3'' \<in> set (map fst short_record_submission) \<and> ''u3'' \<notin> set (map fst gt_example) \<and>
   length short_record_submission = length gt_example \<and>
   load_predictions no_rounding gt_example (Inr short_record_submission) =
     Inl (Exception_msg
       ''User profile 'u1' must contain exactly 4 key/value pairs where key=situation_code and value=score (Required situation codes: ('acc', 'it', 'bank', 'wait')). Error occured at record nbr 1.'')"
  using load_short_record text_field_count by (simp add: example_defs)

text \<open>
  C7, as the code has it. A parsed submission with a record in which a required field holds
  a value that is neither int nor float never loads. When the count check passes, every
  record before it is valid (it passes the checks and its numbers can be converted to
  floats), its profile is known and it has exactly the four codes as keys, the rejection
  is the must-be-a-number error for the first such field in the order acc, it, bank,
  wait, with the 1-based index of the record.
\<close>

theorem non_number_score_rejected:
  assumes "(up, scores) \<in> set sub" and "code \<in> set REQUIRED_SITUATION_CODES"
    and "map_of scores code = Some v" and "\<not> is_number v"
  shows "(\<exists>e. load_predictions rnd gt (Inr sub) = Inl e) \<and>
         (\<forall>pre post.
            length sub = length gt \<and> sub = pre @ (up, scores) # post \<and>
            list_all (valid_record gt) pre \<and> up \<in> set (map fst gt) \<and> four_codes scores \<longrightarrow>
            (\<exists>code' v'. first_not_number scores = Some code' \<and>
               map_of scores code' = Some v' \<and> \<not> is_number v' \<and>
               load_predictions rnd gt (Inr sub) =
                 Inl (Exception_msg (not_a_number_message code' up (Suc (length pre))))))"
proof
  have nc: "\<not> checked_record gt (up, scores)"
  proof
    assume "checked_record gt (up, scores)"
    then have "\<forall>c \<in> set REQUIRED_SITUATION_CODES.
        case map_of scores c of None \<Rightarrow> False | Some x \<Rightarrow> is_number x"
      by (simp add: checked_record_def list_all_iff)
    with assms(2) have "case map_of scores code of None \<Rightarrow> False | Some x \<Rightarrow> is_number x"
      by blast
    with assms(3,4) show False by simp
  qed
  then have nv: "\<not> valid_record gt (up, scores)"
    by (simp add: valid_record_def)
  show "\<exists>e. load_predictions rnd gt (Inr sub) = Inl e"
  proof (cases "load_predictions rnd gt (Inr sub)")
    case (Inl e)
    then show ?thesis by blast
  next
    case (Inr p)
    then have "list_all (valid_record gt) sub" using load_predictions_Inr by blast
    with assms(1) nv show ?thesis by (auto simp: list_all_iff)
  qed
  show "\<forall>pre post.
            length sub = length gt \<and> sub = pre @ (up, scores) # post \<and>
            list_all (valid_record gt) pre \<and> up \<in> set (map fst gt) \<and> four_codes scores \<longrightarrow>
            (\<exists>code' v'. first_not_number scores = Some code' \<and>
               map_of scores code' = Some v' \<and> \<not> is_number v' \<and>
               load_predictions rnd gt (Inr sub) =
                 Inl (Exception_msg (not_a_number_message code' up (Suc (length pre)))))"
  proof (intro allI impI, elim conjE)
    fix pre post
    assume len: "length sub = length gt" and s: "sub = pre @ (up, scores) # post"
      and pre: "list_all (valid_record gt) pre" and known: "up \<in> set (map fst gt)"
      and four: "four_codes scores"
    have ok: "length scores = 4"
      "list_all (\<lambda>k. k \<in> set REQUIRED_SITUATION_CODES) (map fst scores)"
      using four by (simp_all add: four_codes_def)
    obtain code' where f: "first_not_number scores = Some code'"
      using nc known ok
      by (cases "first_not_number scores")
        (auto simp: checked_record_iff find_None_iff list_all_iff)
    then have c: "code' \<in> set REQUIRED_SITUATION_CODES"
      and bad: "case map_of scores code' of None \<Rightarrow> True | Some v \<Rightarrow> \<not> is_number v"
      by (auto simp: first_not_number_def dest: find_Some_holds)
    obtain v' where v': "map_of scores code' = Some v'"
      using four_codes_present [OF four c] by blast
    with bad have nn: "\<not> is_number v'" by simp
    have "load_loop rnd gt 0 [] sub =
            process_record rnd gt (fold (store_record rnd) pre []) (Suc (0 + length pre)) up scores"
      unfolding s using pre nv by (rule load_loop_first_invalid)
    then have "load_predictions rnd gt (Inr sub) =
                 Inl (Exception_msg (not_a_number_message code' up (Suc (length pre))))"
      using len known ok f v'
      by (simp add: load_predictions_def process_record_checked)
    with f v' nn show "\<exists>code' v'. first_not_number scores = Some code' \<and>
               map_of scores code' = Some v' \<and> \<not> is_number v' \<and>
               load_predictions rnd gt (Inr sub) =
                 Inl (Exception_msg (not_a_number_message code' up (Suc (length pre))))"
      by blast
  qed
qed

theorem non_number_score_rejected_witness:
  "(''u2'', string_score_record) \<in> set string_score_submission \<and>
   ''wait'' \<in> set REQUIRED_SITUATION_CODES \<and>
   map_of string_score_record ''wait'' = Some JNull \<and> \<not> is_number JNull \<and>
   length string_score_submission = length gt_example \<and>
   string_score_submission = [(''u1'', record_u1)] @ (''u2'', string_score_record) # [] \<and>
   list_all (valid_record gt_example) [(''u1'', record_u1)] \<and>
   ''u2'' \<in> set (map fst gt_example) \<and> four_codes string_score_record \<and>
   first_not_number string_score_record = Some ''it'' \<and>
   load_predictions no_rounding gt_example (Inr string_score_submission) =
     Inl (Exception_msg (not_a_number_message ''it'' ''u2'' 2))"
proof -
  have a: "(''u2'', string_score_record) \<in> set string_score_submission"
    by (simp add: example_defs)
  have b: "''wait'' \<in> set REQUIRED_SITUATION_CODES"
    by (simp add: REQUIRED_SITUATION_CODES_def)
  have c: "map_of string_score_record ''wait'' = Some JNull"
    by (simp add: example_defs)
  have d: "\<not> is_number JNull" by (simp add: is_number_def)
  have e: "length string_score_submission = length gt_example" by (simp add: example_defs)
  have f: "string_score_submission = [(''u1'', record_u1)] @ (''u2'', string_score_record) # []"
    by (simp add: example_defs)
  have g: "list_all (valid_record gt_example) [(''u1'', record_u1)]"
    by (simp add: valid_record_def checked_record_def is_number_def small_int_fits
        REQUIRED_SITUATION_CODES_def example_defs)
  have h: "''u2'' \<in> set (map fst gt_example)" by (simp add: example_defs)
  have i: "four_codes string_score_record"
    by (simp add: four_codes_def REQUIRED_SITUATION_CODES_def example_defs)
  have j: "first_not_number string_score_record = Some ''it''"
    by (simp add: first_not_number_def is_number_def REQUIRED_SITUATION_CODES_def example_defs)
  from non_number_score_rejected [OF a b c d, where gt = gt_example and rnd = no_rounding] e f g h i
  obtain code' where "first_not_number string_score_record = Some code'"
    "load_predictions no_rounding gt_example (Inr string_score_submission) =
       Inl (Exception_msg (not_a_number_message code' ''u2'' (Suc (length [(''u1'', record_u1)]))))"
    by blast
  with j have k: "load_predictions no_rounding gt_example (Inr string_score_submission) =
     Inl (Exception_msg (not_a_number_message ''it'' ''u2'' 2))"
    by (simp add: numeral_2_eq_2)
  show ?thesis
    by (intro conjI a b c d e f g h i j k)
qed

text \<open>
  C7 as stated fails: a record whose \<open>acc\<close> is the string \<open>22.4\<close> and which has a fifth
  field is rejected for its field count, not for the type of \<open>acc\<close>.
\<close>

theorem non_number_score_other_rejection:
  "(''u1'', extra_field_record) \<in> set extra_field_submission \<and>
   map_of extra_field_record ''acc'' = Some (JString ''22.4'') \<and>
   \<not> is_number (JString ''22.4'') \<and>
   length extra_field_submission = length gt_example \<and>
   load_predictions no_rounding gt_example (Inr extra_field_submission) =
     Inl (Exception_msg
       ''User profile 'u1' must contain exactly 4 key/value pairs where key=situation_code and value=score (Required situation codes: ('acc', 'it', 'bank', 'wait')). Error occured at record nbr 1.'')"
  using load_extra_field text_field_count by (simp add: example_defs is_number_def)

end
